theory Spec2Isabelle
  imports Complex_Main "HOL-Library.AList" "HOL-Library.Code_Target_Nat"
begin

section \<open>JavaScript values\<close>

text \<open>
  The two modules \<^verbatim>\<open>firebase-db.js\<close> and \<^verbatim>\<open>firebase-auth.js\<close> work on plain JavaScript
  values: what \<^verbatim>\<open>JSON.parse\<close> and \<^verbatim>\<open>response.json()\<close> produce, plus \<^verbatim>\<open>undefined\<close>,
  \<^verbatim>\<open>Date\<close> objects and function values. A number is a double; the code never computes
  with numbers, it only passes them on, compares a length with 30 and tests them for
  truthiness, so a finite number is modelled by the real it denotes. A \<^verbatim>\<open>Date\<close> is its
  time value in milliseconds, or \<open>None\<close> for an invalid date.

  An object is the list of its own enumerable string-keyed properties in the order
  \<^verbatim>\<open>Object.entries\<close> lists them, together with its prototype: \<open>JObj kvs\<close> inherits from
  \<^verbatim>\<open>Object.prototype\<close>, as every object does that an object literal or \<^verbatim>\<open>JSON.parse\<close>
  creates, and \<open>JProto p kvs\<close> is an object whose prototype has been replaced by \<open>p\<close>,
  an object or \<^verbatim>\<open>null\<close>; this is what the assignment \<^verbatim>\<open>obj['__proto__'] = p\<close> does,
  and the decoder performs it when a document has a field of that name. An array is
  the list of its elements; \<open>JHole\<close> stands for a missing element of a sparse array
  and occurs nowhere else (where it is read as a value it is \<^verbatim>\<open>undefined\<close>). Values are finite trees: an object that contains itself has
  no counterpart here.
\<close>

datatype jsnum = NaN | PosInf | NegInf | Fin real

datatype jsval =
    JUndefined
  | JNull
  | JBool bool
  | JNum jsnum
  | JStr string
  | JDate "int option"
  | JFun
  | JHole
  | JArr "jsval list"
  | JObj "(string \<times> jsval) list"
  | JProto jsval "(string \<times> jsval) list"

datatype error = TypeError | RangeError | SyntaxError | Error string

text \<open>
  Exceptions are values: \<open>TypeError\<close> and \<open>RangeError\<close> are raised by the runtime
  (a property read on \<^verbatim>\<open>null\<close>, a call of something that is not a function,
  \<^verbatim>\<open>toISOString\<close> on an invalid date, a rejected \<^verbatim>\<open>fetch\<close>), \<open>SyntaxError\<close> by
  \<^verbatim>\<open>JSON.parse\<close> and \<^verbatim>\<open>response.json()\<close>, and \<open>Error msg\<close> is
  \<^verbatim>\<open>throw new Error(msg)\<close> of the two modules.
\<close>

section \<open>The host environment\<close>

text \<open>
  What the browser and the configuration file supply is a parameter of every function:
  the built-ins whose result depends on the implementation (\<^verbatim>\<open>Date.prototype.toISOString\<close>
  on a valid time value, the \<^verbatim>\<open>Date\<close> constructor and \<^verbatim>\<open>parseInt\<close> on one argument, the
  string conversion of a value that is not a string, the number conversion of a value
  that is not a number, \<^verbatim>\<open>JSON.parse\<close>), the clock read by \<^verbatim>\<open>new Date()\<close> (its
  successive readings), and the constants \<^verbatim>\<open>FIREBASE_CONFIG\<close> and \<^verbatim>\<open>getUserDocPath\<close> of
  the configuration file, which is not among the sources.
\<close>

record host =
  toISOString :: "int \<Rightarrow> string"
  newDate :: "jsval \<Rightarrow> error + int option"
  parseInt :: "jsval \<Rightarrow> error + jsnum"
  ToString :: "jsval \<Rightarrow> string"
  ToNumber :: "jsval \<Rightarrow> error + jsnum"
  JSON_parse :: "string \<Rightarrow> error + jsval"
  clock :: "nat \<Rightarrow> int"
  firestoreUrl :: string
  apiKey :: string
  getUserDocPath :: "string option \<Rightarrow> string"

section \<open>Property access\<close>

text \<open>
  \<open>indexed\<close> pairs the elements of an array or the characters of a string with the
  index keys \<^verbatim>\<open>"0"\<close>, \<^verbatim>\<open>"1"\<close>, ...; \<open>entries v\<close> is \<^verbatim>\<open>Object.entries(v)\<close>, the own
  enumerable properties, on a value that is neither \<^verbatim>\<open>null\<close> nor \<^verbatim>\<open>undefined\<close> (on
  those two it raises a \<open>TypeError\<close>, which the callers below write out).

  \<open>builtin v k\<close> is what \<open>v\<close> has under the name \<open>k\<close> without listing it: the length
  of an array or string and the methods of the built-in prototype objects
  \<^verbatim>\<open>Array.prototype\<close>, \<^verbatim>\<open>Date.prototype\<close> and \<^verbatim>\<open>Object.prototype\<close>, each a function
  (the methods of strings, numbers, booleans and functions are left out: the code reads
  none of their names on such a value). \<open>find_prop v k\<close> looks the name up as a
  property read does: among the own properties, then along the prototype chain, which
  ends at \<^verbatim>\<open>null\<close> or in the built-in prototypes. The one accessor property on the way
  is \<^verbatim>\<open>__proto__\<close> of \<^verbatim>\<open>Object.prototype\<close>, found when no object of the chain has a
  property of that name and the chain is \<open>rooted\<close>, that is, ends in
  \<^verbatim>\<open>Object.prototype\<close>: its getter returns the prototype of the object read from (a
  built-in prototype object is written \<open>JObj []\<close>), and its setter replaces that
  prototype when the value assigned is an object or \<^verbatim>\<open>null\<close> and does nothing
  otherwise.

  \<open>member v k\<close> is the read \<^verbatim>\<open>v[k]\<close> on a value that is neither \<^verbatim>\<open>null\<close> nor
  \<^verbatim>\<open>undefined\<close>, \<open>get_prop\<close> the read on any value, \<open>has_property v k\<close> is
  \<^verbatim>\<open>k in v\<close>, and \<open>assign k v obj\<close> is the object \<open>obj\<close> after the assignment
  \<^verbatim>\<open>obj[k] = v\<close>, for an object built from \<^verbatim>\<open>{}\<close>: the value of an own property is
  replaced, a new property goes to the end, and the name \<^verbatim>\<open>__proto__\<close> reaches the
  setter just described. JavaScript lists integer-like keys before the others; the lists
  here keep the order of insertion, which is the same order whenever the keys are
  inserted in the order of another object's entries, as the codec does.
\<close>

fun show_nat :: "nat \<Rightarrow> string" where
  "show_nat n =
     (if n < 10 then [''0123456789'' ! n]
      else show_nat (n div 10) @ [''0123456789'' ! (n mod 10)])"

declare show_nat.simps [simp del]

fun indexed :: "nat \<Rightarrow> 'a list \<Rightarrow> (string \<times> 'a) list" where
  "indexed i [] = []"
| "indexed i (x # xs) = (show_nat i, x) # indexed (Suc i) xs"

definition typeof :: "jsval \<Rightarrow> string" where
  "typeof v =
     (case v of
        JUndefined \<Rightarrow> ''undefined''
      | JHole \<Rightarrow> ''undefined''
      | JBool b \<Rightarrow> ''boolean''
      | JNum n \<Rightarrow> ''number''
      | JStr s \<Rightarrow> ''string''
      | JFun \<Rightarrow> ''function''
      | _ \<Rightarrow> ''object'')"

definition truthy :: "jsval \<Rightarrow> bool" where
  "truthy v =
     (case v of
        JUndefined \<Rightarrow> False
      | JHole \<Rightarrow> False
      | JNull \<Rightarrow> False
      | JBool b \<Rightarrow> b
      | JNum n \<Rightarrow> n \<noteq> NaN \<and> n \<noteq> Fin 0
      | JStr s \<Rightarrow> s \<noteq> []
      | _ \<Rightarrow> True)"

definition nullish :: "jsval \<Rightarrow> bool" where
  "nullish v = (v = JNull \<or> v = JUndefined \<or> v = JHole)"

definition is_object :: "jsval \<Rightarrow> bool" where
  "is_object v =
     (case v of
        JDate t \<Rightarrow> True
      | JFun \<Rightarrow> True
      | JArr xs \<Rightarrow> True
      | JObj kvs \<Rightarrow> True
      | JProto p kvs \<Rightarrow> True
      | _ \<Rightarrow> False)"

definition Object_prototype_keys :: "string list" where
  "Object_prototype_keys =
     [''constructor'', ''hasOwnProperty'', ''isPrototypeOf'', ''propertyIsEnumerable'',
      ''toLocaleString'', ''toString'', ''valueOf'', ''__defineGetter__'',
      ''__defineSetter__'', ''__lookupGetter__'', ''__lookupSetter__'']"

definition Array_prototype_keys :: "string list" where
  "Array_prototype_keys =
     [''at'', ''concat'', ''copyWithin'', ''entries'', ''every'', ''fill'', ''filter'',
      ''find'', ''findIndex'', ''findLast'', ''findLastIndex'', ''flat'', ''flatMap'',
      ''forEach'', ''includes'', ''indexOf'', ''join'', ''keys'', ''lastIndexOf'', ''map'',
      ''pop'', ''push'', ''reduce'', ''reduceRight'', ''reverse'', ''shift'', ''slice'',
      ''some'', ''sort'', ''splice'', ''toReversed'', ''toSorted'', ''toSpliced'',
      ''unshift'', ''values'', ''with'']"

definition Date_prototype_keys :: "string list" where
  "Date_prototype_keys =
     [''getDate'', ''getDay'', ''getFullYear'', ''getHours'', ''getMilliseconds'',
      ''getMinutes'', ''getMonth'', ''getSeconds'', ''getTime'', ''getTimezoneOffset'',
      ''getUTCDate'', ''getUTCDay'', ''getUTCFullYear'', ''getUTCHours'',
      ''getUTCMilliseconds'', ''getUTCMinutes'', ''getUTCMonth'', ''getUTCSeconds'',
      ''getYear'', ''setDate'', ''setFullYear'', ''setHours'', ''setMilliseconds'',
      ''setMinutes'', ''setMonth'', ''setSeconds'', ''setTime'', ''setUTCDate'',
      ''setUTCFullYear'', ''setUTCHours'', ''setUTCMilliseconds'', ''setUTCMinutes'',
      ''setUTCMonth'', ''setUTCSeconds'', ''setYear'', ''toDateString'', ''toGMTString'',
      ''toISOString'', ''toJSON'', ''toLocaleDateString'', ''toLocaleTimeString'',
      ''toTimeString'', ''toUTCString'']"

definition entries :: "jsval \<Rightarrow> (string \<times> jsval) list" where
  "entries v =
     (case v of
        JObj kvs \<Rightarrow> kvs
      | JProto p kvs \<Rightarrow> kvs
      | JArr xs \<Rightarrow> filter (\<lambda>(k, x). x \<noteq> JHole) (indexed 0 xs)
      | JStr s \<Rightarrow> indexed 0 (map (\<lambda>c. JStr [c]) s)
      | _ \<Rightarrow> [])"

definition builtin :: "jsval \<Rightarrow> string \<Rightarrow> jsval option" where
  "builtin v k =
     (case v of
        JArr xs \<Rightarrow>
          if k = ''length'' then Some (JNum (Fin (real (length xs))))
          else if k \<in> set Array_prototype_keys \<or> k \<in> set Object_prototype_keys then Some JFun
          else None
      | JStr s \<Rightarrow>
          if k = ''length'' then Some (JNum (Fin (real (length s))))
          else if k \<in> set Object_prototype_keys then Some JFun
          else None
      | JDate t \<Rightarrow>
          if k \<in> set Date_prototype_keys \<or> k \<in> set Object_prototype_keys then Some JFun
          else None
      | _ \<Rightarrow> if k \<in> set Object_prototype_keys then Some JFun else None)"

fun find_prop :: "jsval \<Rightarrow> string \<Rightarrow> jsval option" where
  "find_prop (JProto p kvs) k =
     (case map_of kvs k of
        Some x \<Rightarrow> Some x
      | None \<Rightarrow> find_prop p k)"
| "find_prop JNull k = None"
| "find_prop v k =
     (case map_of (entries v) k of
        Some x \<Rightarrow> Some x
      | None \<Rightarrow> builtin v k)"

fun rooted :: "jsval \<Rightarrow> bool" where
  "rooted (JProto p kvs) = rooted p"
| "rooted JNull = False"
| "rooted v = True"

definition prototype :: "jsval \<Rightarrow> jsval" where
  "prototype v = (case v of JProto p kvs \<Rightarrow> p | _ \<Rightarrow> JObj [])"

definition member :: "jsval \<Rightarrow> string \<Rightarrow> jsval" where
  "member v k =
     (case find_prop v k of
        Some x \<Rightarrow> x
      | None \<Rightarrow> if k = ''__proto__'' \<and> rooted v then prototype v else JUndefined)"

definition has_property :: "jsval \<Rightarrow> string \<Rightarrow> bool" where
  "has_property v k = (find_prop v k \<noteq> None \<or> (k = ''__proto__'' \<and> rooted v))"

definition get_prop :: "jsval \<Rightarrow> string \<Rightarrow> error + jsval" where
  "get_prop v k = (if nullish v then Inl TypeError else Inr (member v k))"

definition define_own :: "string \<Rightarrow> jsval \<Rightarrow> jsval \<Rightarrow> jsval" where
  "define_own k v obj =
     (case obj of
        JObj kvs \<Rightarrow> JObj (AList.update k v kvs)
      | JProto p kvs \<Rightarrow> JProto p (AList.update k v kvs)
      | _ \<Rightarrow> obj)"

definition delete_own :: "string \<Rightarrow> jsval \<Rightarrow> jsval" where
  "delete_own k obj =
     (case obj of
        JObj kvs \<Rightarrow> JObj (AList.delete k kvs)
      | JProto p kvs \<Rightarrow> JProto p (AList.delete k kvs)
      | _ \<Rightarrow> obj)"

definition set_prototype :: "jsval \<Rightarrow> jsval \<Rightarrow> jsval" where
  "set_prototype p obj =
     (case obj of
        JObj kvs \<Rightarrow> JProto p kvs
      | JProto q kvs \<Rightarrow> JProto p kvs
      | _ \<Rightarrow> obj)"

definition assign :: "string \<Rightarrow> jsval \<Rightarrow> jsval \<Rightarrow> jsval" where
  "assign k v obj =
     (if k = ''__proto__'' \<and> find_prop obj k = None \<and> rooted obj then
        (if is_object v \<or> v = JNull then set_prototype v obj else obj)
      else define_own k v obj)"

definition tagged :: "string \<Rightarrow> jsval \<Rightarrow> jsval" where
  "tagged tag v = JObj [(tag, v)]"

definition js_or :: "jsval \<Rightarrow> jsval \<Rightarrow> jsval" where
  "js_or a b = (if truthy a then a else b)"

subsection \<open>Dates\<close>

text \<open>
  \<open>instanceof_Date v\<close> is \<^verbatim>\<open>v instanceof Date\<close>: \<^verbatim>\<open>Date.prototype\<close> is on the
  prototype chain of \<open>v\<close>, which holds of a date and of an object that inherits from
  one. \<open>call_toISOString\<close> is the call \<^verbatim>\<open>v.toISOString()\<close> on such a value: on a date
  it formats the time value and raises a \<open>RangeError\<close> when the date is invalid; on an
  object that only inherits from a date, the method found is applied to something that
  is not a date, or what is found is not a function, and both raise a \<open>TypeError\<close>.
\<close>

fun instanceof_Date :: "jsval \<Rightarrow> bool" where
  "instanceof_Date (JDate t) = True"
| "instanceof_Date (JProto p kvs) = instanceof_Date p"
| "instanceof_Date v = False"

definition Date_toISOString :: "host \<Rightarrow> int option \<Rightarrow> error + string" where
  "Date_toISOString h t = (case t of None \<Rightarrow> Inl RangeError | Some ms \<Rightarrow> Inr (toISOString h ms))"

definition call_toISOString :: "host \<Rightarrow> jsval \<Rightarrow> error + string" where
  "call_toISOString h v = (case v of JDate t \<Rightarrow> Date_toISOString h t | _ \<Rightarrow> Inl TypeError)"

subsection \<open>Array methods\<close>

text \<open>
  \<^verbatim>\<open>unshift\<close>, \<^verbatim>\<open>slice\<close> and \<^verbatim>\<open>map\<close> are functions of \<^verbatim>\<open>Array.prototype\<close>. On an
  array they prepend an element, take the first elements and visit the elements that
  are present. They also work on any other object that inherits them (a decoded object
  whose prototype chain holds an array): they read its \<^verbatim>\<open>length\<close>, converted by
  \<open>ToLength\<close>, and its index properties, own or inherited, and \<^verbatim>\<open>unshift\<close> moves each
  index property one up, from the last to the first, and sets the \<^verbatim>\<open>length\<close>.
  \<open>callable v name\<close> says that \<^verbatim>\<open>v[name]\<close> is a function; the values that reach
  these calls are decoded ones, which hold no functions of their own, so the function
  found is the built-in one of \<^verbatim>\<open>Array.prototype\<close>, and a value without it (a string,
  a plain object) raises a \<open>TypeError\<close>. \<open>unshift\<close> returns the receiver after the
  call, \<open>slice h arr n\<close> is \<^verbatim>\<open>arr.slice(0, n)\<close>, a new array,
  \<open>map_items\<close> lists the elements that \<^verbatim>\<open>arr.map(f)\<close> visits, with \<open>JHole\<close> where
  it visits none and leaves the result empty, and \<open>exceeds v n\<close> is \<^verbatim>\<open>v > n\<close> for a
  number \<open>v\<close>.
\<close>

definition ToLength :: "host \<Rightarrow> jsval \<Rightarrow> error + nat" where
  "ToLength h v =
     (case (case v of
              JNum n \<Rightarrow> Inr n
            | JUndefined \<Rightarrow> Inr NaN
            | JNull \<Rightarrow> Inr (Fin 0)
            | JBool b \<Rightarrow> Inr (Fin (if b then 1 else 0))
            | _ \<Rightarrow> ToNumber h v) of
        Inl e \<Rightarrow> Inl e
      | Inr n \<Rightarrow>
          Inr (case n of
                 NaN \<Rightarrow> 0
               | NegInf \<Rightarrow> 0
               | PosInf \<Rightarrow> 2 ^ 53 - 1
               | Fin r \<Rightarrow> if r \<le> 0 then 0 else min (nat \<lfloor>r\<rfloor>) (2 ^ 53 - 1)))"

definition callable :: "jsval \<Rightarrow> string \<Rightarrow> bool" where
  "callable v name = (\<not> nullish v \<and> member v name = JFun)"

definition exceeds :: "jsval \<Rightarrow> nat \<Rightarrow> bool" where
  "exceeds v n =
     (case v of
        JNum (Fin r) \<Rightarrow> r > real n
      | JNum PosInf \<Rightarrow> True
      | _ \<Rightarrow> False)"

fun shift_up :: "nat \<Rightarrow> jsval \<Rightarrow> jsval" where
  "shift_up 0 obj = obj"
| "shift_up (Suc k) obj =
     shift_up k
       (if has_property obj (show_nat k)
        then assign (show_nat (Suc k)) (member obj (show_nat k)) obj
        else delete_own (show_nat (Suc k)) obj)"

definition elements :: "jsval \<Rightarrow> nat \<Rightarrow> jsval list" where
  "elements obj n =
     map (\<lambda>k. if has_property obj (show_nat k) then member obj (show_nat k) else JHole) [0..<n]"

definition unshift :: "host \<Rightarrow> jsval \<Rightarrow> jsval \<Rightarrow> error + jsval" where
  "unshift h arr x =
     (case arr of
        JArr xs \<Rightarrow> Inr (JArr (x # xs))
      | _ \<Rightarrow>
          if \<not> callable arr ''unshift'' then Inl TypeError
          else
            (case ToLength h (member arr ''length'') of
               Inl e \<Rightarrow> Inl e
             | Inr len \<Rightarrow>
                 if len + 1 > 2 ^ 53 - 1 then Inl TypeError
                 else
                   Inr (assign ''length'' (JNum (Fin (real (len + 1))))
                          (assign ''0'' x (shift_up len arr)))))"

definition slice :: "host \<Rightarrow> jsval \<Rightarrow> nat \<Rightarrow> error + jsval" where
  "slice h arr n =
     (case arr of
        JArr xs \<Rightarrow> Inr (JArr (take n xs))
      | _ \<Rightarrow>
          if \<not> callable arr ''slice'' then Inl TypeError
          else
            (case ToLength h (member arr ''length'') of
               Inl e \<Rightarrow> Inl e
             | Inr len \<Rightarrow>
                 if min n len > 2 ^ 32 - 1 then Inl RangeError
                 else Inr (JArr (elements arr (min n len)))))"

definition map_items :: "host \<Rightarrow> jsval \<Rightarrow> error + jsval list" where
  "map_items h arr =
     (case arr of
        JArr xs \<Rightarrow> Inr xs
      | _ \<Rightarrow>
          if \<not> callable arr ''map'' then Inl TypeError
          else
            (case ToLength h (member arr ''length'') of
               Inl e \<Rightarrow> Inl e
             | Inr len \<Rightarrow>
                 if len > 2 ^ 32 - 1 then Inl RangeError
                 else Inr (elements arr len)))"

section \<open>The value codec\<close>

subsection \<open>Encoding: \<^verbatim>\<open>objectToFirestoreFields\<close>\<close>

text \<open>
  The function loops over \<^verbatim>\<open>Object.entries(obj)\<close> and stores one tagged value per
  key; a value that matches no branch of the \<^verbatim>\<open>if\<close> chain (a function) stores nothing.
  \<open>encode_loop\<close> is that loop with the object \<^verbatim>\<open>fields\<close> built so far, and
  \<open>encode_items\<close> is \<^verbatim>\<open>value.map(item => ...)\<close>, which skips the missing elements of
  a sparse array. \<open>isArray\<close> is \<^verbatim>\<open>Array.isArray\<close>, which holds of arrays only, and
  \<open>array_items\<close> lists the elements of an array. The recursion terminates because every
  recursive call is on a smaller part of the value, measured by \<open>cost\<close>.
\<close>

definition isArray :: "jsval \<Rightarrow> bool" where
  "isArray v = (case v of JArr xs \<Rightarrow> True | _ \<Rightarrow> False)"

definition array_items :: "jsval \<Rightarrow> jsval list" where
  "array_items v = (case v of JArr xs \<Rightarrow> xs | _ \<Rightarrow> [])"

fun cost :: "jsval \<Rightarrow> nat" where
  "cost (JObj kvs) = 1 + sum_list (map (\<lambda>(k, v). 1 + cost v) kvs)"
| "cost (JProto p kvs) = 1 + sum_list (map (\<lambda>(k, v). 1 + cost v) kvs)"
| "cost (JArr xs) = 1 + sum_list (map (\<lambda>x. 4 + cost x) xs)"
| "cost (JStr s) = 1 + length s"
| "cost _ = 1"

definition ecost :: "jsval \<Rightarrow> nat" where
  "ecost v =
     (case v of
        JArr xs \<Rightarrow> cost v
      | JObj kvs \<Rightarrow> cost v
      | JProto p kvs \<Rightarrow> cost v
      | _ \<Rightarrow> 0)"

definition loop_cost :: "(string \<times> jsval) list \<Rightarrow> nat" where
  "loop_cost ents = sum_list (map (\<lambda>(k, v). 1 + ecost v) ents)"

lemma ecost_le: "ecost v \<le> cost v"
  by (cases v) (simp_all add: ecost_def)

lemma loop_cost_filter: "loop_cost (filter P ents) \<le> loop_cost ents"
  by (induction ents) (auto simp: loop_cost_def)

lemma loop_cost_indexed_chars: "loop_cost (indexed i (map (\<lambda>c. JStr [c]) s)) = length s"
  by (induction s arbitrary: i) (simp_all add: loop_cost_def ecost_def)

lemma loop_cost_indexed: "loop_cost (indexed i xs) \<le> sum_list (map (\<lambda>x. 4 + cost x) xs)"
proof (induction xs arbitrary: i)
  case Nil
  show ?case by (simp add: loop_cost_def)
next
  case (Cons x xs)
  have "loop_cost (indexed (Suc i) xs) \<le> sum_list (map (\<lambda>x. 4 + cost x) xs)"
    by (rule Cons.IH)
  moreover have "ecost x \<le> cost x" by (rule ecost_le)
  ultimately show ?case by (simp add: loop_cost_def)
qed

lemma loop_cost_obj: "loop_cost kvs \<le> sum_list (map (\<lambda>(k, v). 1 + cost v) kvs)"
proof (induction kvs)
  case Nil
  show ?case by (simp add: loop_cost_def)
next
  case (Cons kv kvs)
  obtain k v where kv: "kv = (k, v)" by (cases kv)
  have "ecost v \<le> cost v" by (rule ecost_le)
  with Cons.IH show ?case by (simp add: loop_cost_def kv)
qed

lemma loop_cost_entries: "loop_cost (entries obj) < cost obj"
proof (cases obj)
  case (JStr s)
  then show ?thesis by (simp add: entries_def loop_cost_indexed_chars)
next
  case (JArr xs)
  have "loop_cost (filter (\<lambda>(k, x). x \<noteq> JHole) (indexed 0 xs)) \<le> loop_cost (indexed 0 xs)"
    by (rule loop_cost_filter)
  with JArr show ?thesis using loop_cost_indexed [of 0 xs] by (simp add: entries_def)
next
  case (JObj kvs)
  then show ?thesis using loop_cost_obj [of kvs] by (simp add: entries_def)
next
  case (JProto p kvs)
  then show ?thesis using loop_cost_obj [of kvs] by (simp add: entries_def)
qed (simp_all add: entries_def loop_cost_def)

function (sequential) objectToFirestoreFields :: "host \<Rightarrow> jsval \<Rightarrow> error + jsval"
  and encode_loop :: "host \<Rightarrow> (string \<times> jsval) list \<Rightarrow> jsval \<Rightarrow> error + jsval"
  and encode_items :: "host \<Rightarrow> jsval list \<Rightarrow> error + jsval list"
where
  "objectToFirestoreFields h obj =
     (if nullish obj then Inl TypeError else encode_loop h (entries obj) (JObj []))"
| "encode_loop h [] flds = Inr flds"
| "encode_loop h ((key, value) # rest) flds =
     (if value = JNull \<or> value = JUndefined then
        encode_loop h rest (assign key (tagged ''nullValue'' JNull) flds)
      else if typeof value = ''number'' then
        encode_loop h rest (assign key (tagged ''doubleValue'' value) flds)
      else if typeof value = ''string'' then
        encode_loop h rest (assign key (tagged ''stringValue'' value) flds)
      else if typeof value = ''boolean'' then
        encode_loop h rest (assign key (tagged ''booleanValue'' value) flds)
      else if instanceof_Date value then
        (case call_toISOString h value of
           Inl e \<Rightarrow> Inl e
         | Inr isoStr \<Rightarrow>
             encode_loop h rest (assign key (tagged ''timestampValue'' (JStr isoStr)) flds))
      else if isArray value then
        (case encode_items h (array_items value) of
           Inl e \<Rightarrow> Inl e
         | Inr vs \<Rightarrow>
             encode_loop h rest
               (assign key (tagged ''arrayValue'' (tagged ''values'' (JArr vs))) flds))
      else if typeof value = ''object'' then
        (case objectToFirestoreFields h value of
           Inl e \<Rightarrow> Inl e
         | Inr fs \<Rightarrow>
             encode_loop h rest (assign key (tagged ''mapValue'' (tagged ''fields'' fs)) flds))
      else encode_loop h rest flds)"
| "encode_items h [] = Inr []"
| "encode_items h (item # items) =
     (if item = JHole then
        (case encode_items h items of
           Inl e \<Rightarrow> Inl e
         | Inr vs \<Rightarrow> Inr (JHole # vs))
      else
        (case (if typeof item = ''object'' then
                 (case objectToFirestoreFields h item of
                    Inl e \<Rightarrow> Inl e
                  | Inr fs \<Rightarrow> Inr (tagged ''mapValue'' (tagged ''fields'' fs)))
               else
                 (case objectToFirestoreFields h (JObj [(''val'', item)]) of
                    Inl e \<Rightarrow> Inl e
                  | Inr fs \<Rightarrow> get_prop fs ''val'')) of
           Inl e \<Rightarrow> Inl e
         | Inr v \<Rightarrow>
             (case encode_items h items of
                Inl e \<Rightarrow> Inl e
              | Inr vs \<Rightarrow> Inr (v # vs))))"
  by pat_completeness auto
termination
  apply (relation "measure (\<lambda>x. case x of
           Inl (h, obj) \<Rightarrow> cost obj
         | Inr (Inl (h, ents, flds)) \<Rightarrow> loop_cost ents
         | Inr (Inr (h, items)) \<Rightarrow> sum_list (map (\<lambda>x. 4 + cost x) items))")
  apply (simp_all add: loop_cost_entries)
  apply (simp_all add: loop_cost_def ecost_def)
  subgoal for v rest by (cases v) (simp_all add: isArray_def array_items_def)
  subgoal for v rest by (cases v) (simp_all add: typeof_def isArray_def)
  done

subsection \<open>Decoding: \<^verbatim>\<open>parseFirestoreValue\<close> and \<^verbatim>\<open>parseFirestoreDocument\<close>\<close>

text \<open>
  \<open>parse_entries\<close> is the loop over \<^verbatim>\<open>Object.entries(fields)\<close> with the object built
  so far, and \<open>parse_values\<close> is \<^verbatim>\<open>values.map(parseFirestoreValue)\<close>. The argument of
  the decoder is JSON, the body of a reply or a part of it: there \<^verbatim>\<open>values\<close>, when set,
  is an array or has no function \<^verbatim>\<open>map\<close>, and the call raises a \<open>TypeError\<close>.
\<close>

fun wt :: "jsval \<Rightarrow> nat" where
  "wt (JObj kvs) = sum_list (map (\<lambda>(k, v). 1 + wt v) kvs)"
| "wt (JProto p kvs) = 1 + wt p + sum_list (map (\<lambda>(k, v). 1 + wt v) kvs)"
| "wt (JArr xs) = sum_list (map (\<lambda>x. 1 + wt x) xs)"
| "wt (JStr s) = length s"
| "wt _ = 0"

definition pcost :: "jsval \<Rightarrow> nat" where
  "pcost v = (case v of JStr s \<Rightarrow> 2 | _ \<Rightarrow> 3 * wt v + 2)"

definition entries_pcost :: "(string \<times> jsval) list \<Rightarrow> nat" where
  "entries_pcost ents = sum_list (map (\<lambda>(k, v). 1 + pcost v) ents)"

definition values_pcost :: "jsval list \<Rightarrow> nat" where
  "values_pcost vs = sum_list (map (\<lambda>v. 1 + pcost v) vs)"

lemma show_nat_digits: "show_nat n \<noteq> [] \<and> set (show_nat n) \<subseteq> set ''0123456789''"
proof (induction n rule: show_nat.induct)
  case (1 n)
  have d: "\<And>m::nat. m < 10 \<Longrightarrow> ''0123456789'' ! m \<in> set ''0123456789''"
    by (rule nth_mem) simp
  show ?case
  proof (cases "n < 10")
    case True
    then show ?thesis using d [of n] by (simp add: show_nat.simps [of n])
  next
    case False
    have "n mod 10 < 10" by simp
    then have "''0123456789'' ! (n mod 10) \<in> set ''0123456789''" by (rule d)
    with False 1 show ?thesis by (simp add: show_nat.simps [of n])
  qed
qed

lemma indexed_keys: "(k, x) \<in> set (indexed i xs) \<Longrightarrow> set k \<subseteq> set ''0123456789'' \<and> x \<in> set xs"
proof (induction xs arbitrary: i)
  case Nil
  then show ?case by simp
next
  case (Cons y ys)
  then show ?case using show_nat_digits [of i] by auto
qed

lemma pcost_le: "pcost v \<le> 3 * wt v + 2"
  by (cases v) (simp_all add: pcost_def)

lemma entries_pcost_filter: "entries_pcost (filter P ents) \<le> entries_pcost ents"
  by (induction ents) (auto simp: entries_pcost_def)

lemma entries_pcost_obj: "entries_pcost kvs \<le> 3 * sum_list (map (\<lambda>(k, v). 1 + wt v) kvs)"
proof (induction kvs)
  case Nil
  show ?case by (simp add: entries_pcost_def)
next
  case (Cons kv kvs)
  obtain k v where kv: "kv = (k, v)" by (cases kv)
  have "pcost v \<le> 3 * wt v + 2" by (rule pcost_le)
  with Cons.IH show ?case by (simp add: entries_pcost_def kv)
qed

lemma entries_pcost_indexed: "entries_pcost (indexed i xs) \<le> 3 * sum_list (map (\<lambda>x. 1 + wt x) xs)"
proof (induction xs arbitrary: i)
  case Nil
  show ?case by (simp add: entries_pcost_def)
next
  case (Cons x xs)
  have "entries_pcost (indexed (Suc i) xs) \<le> 3 * sum_list (map (\<lambda>x. 1 + wt x) xs)"
    by (rule Cons.IH)
  moreover have "pcost x \<le> 3 * wt x + 2" by (rule pcost_le)
  ultimately show ?case by (simp add: entries_pcost_def)
qed

lemma entries_pcost_chars: "entries_pcost (indexed i (map (\<lambda>c. JStr [c]) s)) = 3 * length s"
  by (induction s arbitrary: i) (simp_all add: entries_pcost_def pcost_def)

lemma entries_pcost_le: "entries_pcost (entries v) \<le> 3 * wt v"
proof (cases v)
  case (JStr s)
  then show ?thesis by (simp add: entries_def entries_pcost_chars)
next
  case (JArr xs)
  have "entries_pcost (filter (\<lambda>(k, x). x \<noteq> JHole) (indexed 0 xs)) \<le> entries_pcost (indexed 0 xs)"
    by (rule entries_pcost_filter)
  with JArr show ?thesis using entries_pcost_indexed [of 0 xs] by (simp add: entries_def)
next
  case (JObj kvs)
  then show ?thesis using entries_pcost_obj [of kvs] by (simp add: entries_def)
next
  case (JProto p kvs)
  then show ?thesis using entries_pcost_obj [of kvs] by (simp add: entries_def)
qed (simp_all add: entries_def entries_pcost_def)

lemma values_pcost_le: "values_pcost vs \<le> 3 * wt (JArr vs)"
proof (induction vs)
  case Nil
  show ?case by (simp add: values_pcost_def)
next
  case (Cons v vs)
  have "pcost v \<le> 3 * wt v + 2" by (rule pcost_le)
  with Cons.IH show ?case by (simp add: values_pcost_def)
qed

lemma wt_mem_obj: "(k, x) \<in> set kvs \<Longrightarrow> wt x < sum_list (map (\<lambda>(k, v). 1 + wt v) kvs)"
  by (induction kvs) auto

lemma wt_mem_arr: "x \<in> set xs \<Longrightarrow> wt x < sum_list (map (\<lambda>x. 1 + wt x) xs)"
  by (induction xs) auto

lemma wt_builtin: "builtin v k = Some x \<Longrightarrow> wt x = 0"
  by (cases v) (auto simp: builtin_def split: if_splits)

lemma wt_entries: "map_of (entries v) k = Some x \<Longrightarrow> wt x \<le> wt v"
proof -
  assume "map_of (entries v) k = Some x"
  then have mem: "(k, x) \<in> set (entries v)" by (rule map_of_SomeD)
  show "wt x \<le> wt v"
  proof (cases v)
    case (JStr s)
    with mem have "x \<in> set (map (\<lambda>c. JStr [c]) s)"
      using indexed_keys [of k x 0 "map (\<lambda>c. JStr [c]) s"] by (simp add: entries_def)
    then show ?thesis using JStr by (cases s) auto
  next
    case (JArr xs)
    with mem have "x \<in> set xs" using indexed_keys [of k x 0 xs] by (simp add: entries_def)
    then show ?thesis using JArr wt_mem_arr [of x xs] by simp
  next
    case (JObj kvs)
    with mem show ?thesis using wt_mem_obj [of k x kvs] by (simp add: entries_def)
  next
    case (JProto p kvs)
    with mem show ?thesis using wt_mem_obj [of k x kvs] by (simp add: entries_def)
  qed (use mem in \<open>simp_all add: entries_def\<close>)
qed

lemma find_prop_plain:
  "v \<noteq> JNull \<Longrightarrow> \<forall>p kvs. v \<noteq> JProto p kvs \<Longrightarrow>
   find_prop v k = (case map_of (entries v) k of Some x \<Rightarrow> Some x | None \<Rightarrow> builtin v k)"
  by (cases v) auto

lemma wt_find_prop: "find_prop v k = Some x \<Longrightarrow> wt x \<le> wt v"
proof (induction v)
  case (JProto p kvs)
  show ?case
  proof (cases "map_of kvs k")
    case None
    with JProto.prems have "find_prop p k = Some x" by simp
    then have "wt x \<le> wt p" by (rule JProto.IH(1))
    then show ?thesis by simp
  next
    case (Some y)
    with JProto.prems have "map_of (entries (JProto p kvs)) k = Some x"
      by (simp add: entries_def)
    then show ?thesis by (rule wt_entries)
  qed
next
  case JNull
  then show ?case by simp
qed (auto simp: find_prop_plain dest: wt_entries wt_builtin split: option.splits)

lemma wt_prototype: "wt (prototype v) \<le> wt v"
  by (cases v) (simp_all add: prototype_def)

lemma wt_member: "wt (member v k) \<le> wt v"
proof (cases "find_prop v k")
  case None
  then show ?thesis using wt_prototype [of v] by (simp add: member_def)
next
  case (Some x)
  then show ?thesis using wt_find_prop [of v k x] by (simp add: member_def)
qed

lemma wt_js_or: "wt b = 0 \<Longrightarrow> wt (js_or (member v k) b) \<le> wt v"
  using wt_member [of v k] by (simp add: js_or_def)

lemma member_JStr_tag:
  assumes "\<not> set k \<subseteq> set ''0123456789''" and "k \<noteq> ''length''"
    and "k \<notin> set Object_prototype_keys" and "k \<noteq> ''__proto__''"
  shows "member (JStr s) k = JUndefined"
proof -
  have "map_of (entries (JStr s)) k = None"
  proof (cases "map_of (entries (JStr s)) k")
    case (Some x)
    then have "(k, x) \<in> set (indexed 0 (map (\<lambda>c. JStr [c]) s))"
      using map_of_SomeD [of "entries (JStr s)" k x] by (simp add: entries_def)
    then have "set k \<subseteq> set ''0123456789''" by (rule indexed_keys [THEN conjunct1])
    with assms show ?thesis by simp
  qed simp
  with assms show ?thesis by (simp add: member_def builtin_def)
qed

lemma truthy_member_pcost:
  assumes "truthy (member v k)" and "k = ''mapValue'' \<or> k = ''arrayValue''"
  shows "pcost v = 3 * wt v + 2"
proof (cases v)
  case (JStr s)
  have "member (JStr s) k = JUndefined"
    using assms(2) by (intro member_JStr_tag) (auto simp: Object_prototype_keys_def)
  with assms JStr show ?thesis by (simp add: truthy_def)
qed (simp_all add: pcost_def)

function (sequential) parseFirestoreValue :: "host \<Rightarrow> jsval \<Rightarrow> error + jsval"
  and parse_entries :: "host \<Rightarrow> (string \<times> jsval) list \<Rightarrow> jsval \<Rightarrow> error + jsval"
  and parse_values :: "host \<Rightarrow> jsval list \<Rightarrow> error + jsval list"
where
  "parseFirestoreValue h value =
     (if nullish value then Inl TypeError
      else if member value ''stringValue'' \<noteq> JUndefined then Inr (member value ''stringValue'')
      else if member value ''doubleValue'' \<noteq> JUndefined then Inr (member value ''doubleValue'')
      else if member value ''integerValue'' \<noteq> JUndefined then
        (case parseInt h (member value ''integerValue'') of
           Inl e \<Rightarrow> Inl e
         | Inr n \<Rightarrow> Inr (JNum n))
      else if member value ''booleanValue'' \<noteq> JUndefined then Inr (member value ''booleanValue'')
      else if member value ''timestampValue'' \<noteq> JUndefined then
        (case newDate h (member value ''timestampValue'') of
           Inl e \<Rightarrow> Inl e
         | Inr t \<Rightarrow> Inr (JDate t))
      else if member value ''nullValue'' \<noteq> JUndefined then Inr JNull
      else if truthy (member value ''mapValue'') then
        parse_entries h
          (entries (js_or (member (member value ''mapValue'') ''fields'') (JObj []))) (JObj [])
      else if truthy (member value ''arrayValue'') then
        (case js_or (member (member value ''arrayValue'') ''values'') (JArr []) of
           JArr vs \<Rightarrow>
             (case parse_values h vs of
                Inl e \<Rightarrow> Inl e
              | Inr xs \<Rightarrow> Inr (JArr xs))
         | _ \<Rightarrow> Inl TypeError)
      else Inr JNull)"
| "parse_entries h [] obj = Inr obj"
| "parse_entries h ((key, val) # rest) obj =
     (case parseFirestoreValue h val of
        Inl e \<Rightarrow> Inl e
      | Inr v \<Rightarrow> parse_entries h rest (assign key v obj))"
| "parse_values h [] = Inr []"
| "parse_values h (v # vs) =
     (if v = JHole then
        (case parse_values h vs of
           Inl e \<Rightarrow> Inl e
         | Inr xs \<Rightarrow> Inr (JHole # xs))
      else
        (case parseFirestoreValue h v of
           Inl e \<Rightarrow> Inl e
         | Inr x \<Rightarrow>
             (case parse_values h vs of
                Inl e \<Rightarrow> Inl e
              | Inr xs \<Rightarrow> Inr (x # xs))))"
  by pat_completeness auto
termination
proof (relation "measure (\<lambda>x. case x of
           Inl (h, v) \<Rightarrow> pcost v
         | Inr (Inl (h, ents, obj)) \<Rightarrow> entries_pcost ents
         | Inr (Inr (h, vs)) \<Rightarrow> values_pcost vs)", goal_cases)
  case 1
  show ?case by simp
next
  case (2 h v)
  let ?mv = "member v ''mapValue''"
  let ?F = "js_or (member ?mv ''fields'') (JObj [])"
  have "entries_pcost (entries ?F) \<le> 3 * wt ?F" by (rule entries_pcost_le)
  moreover have "wt ?F \<le> wt ?mv" by (rule wt_js_or) simp
  moreover have "wt ?mv \<le> wt v" by (rule wt_member)
  moreover have "pcost v = 3 * wt v + 2" using 2 by (intro truthy_member_pcost [of v "''mapValue''"]) auto
  ultimately show ?case by simp
next
  case (3 h v vs)
  let ?av = "member v ''arrayValue''"
  have "values_pcost vs \<le> 3 * wt (JArr vs)" by (rule values_pcost_le)
  moreover have "wt (js_or (member ?av ''values'') (JArr [])) \<le> wt ?av" by (rule wt_js_or) simp
  moreover have "wt ?av \<le> wt v" by (rule wt_member)
  moreover have "pcost v = 3 * wt v + 2" using 3 by (intro truthy_member_pcost [of v "''arrayValue''"]) auto
  ultimately show ?case using 3 by simp
qed (simp_all add: entries_pcost_def values_pcost_def)

definition parseFirestoreDocument :: "host \<Rightarrow> jsval \<Rightarrow> error + jsval" where
  "parseFirestoreDocument h firestoreDoc =
     (if \<not> truthy firestoreDoc \<or> \<not> truthy (member firestoreDoc ''fields'') then Inr (JObj [])
      else parse_entries h (entries (member firestoreDoc ''fields'')) (JObj []))"

text \<open>
  The defining equations of the two entry points apply to every argument; they are
  unfolded where needed.
\<close>

declare objectToFirestoreFields.simps [simp del]

declare parseFirestoreValue.simps [simp del]

section \<open>Session state and the network\<close>

text \<open>
  The mutable state of the page: the two storage areas, the variable \<^verbatim>\<open>currentUser\<close>
  of the authentication module, the number of clock readings taken so far, and the
  network. \<open>network\<close> lists what the successive calls of \<^verbatim>\<open>fetch\<close> will be answered
  with (a call beyond the list fails like an unreachable server), and \<open>sent\<close> records
  every request in the order issued. The body of a request is the value handed to
  \<^verbatim>\<open>JSON.stringify\<close>; the JSON of a reply is \<open>None\<close> when the body does not parse.
\<close>

record request =
  meth :: string
  url :: string
  headers :: "(string \<times> string) list"
  body :: "jsval option"

datatype reply = Unreachable | Reply nat "jsval option"

record world =
  sessionStorage :: "string \<rightharpoonup> string"
  localStorage :: "string \<rightharpoonup> string"
  currentUser :: jsval
  network :: "reply list"
  sent :: "request list"
  ticks :: nat

definition fetch :: "request \<Rightarrow> world \<Rightarrow> (error + nat \<times> jsval option) \<times> world" where
  "fetch r w =
     (case network w of
        [] \<Rightarrow> (Inl TypeError, w\<lparr>sent := sent w @ [r]\<rparr>)
      | Unreachable # rs \<Rightarrow> (Inl TypeError, w\<lparr>network := rs, sent := sent w @ [r]\<rparr>)
      | Reply status json # rs \<Rightarrow> (Inr (status, json), w\<lparr>network := rs, sent := sent w @ [r]\<rparr>))"

definition ok :: "nat \<Rightarrow> bool" where
  "ok status = (200 \<le> status \<and> status \<le> 299)"

definition response_json :: "jsval option \<Rightarrow> error + jsval" where
  "response_json json = (case json of None \<Rightarrow> Inl SyntaxError | Some v \<Rightarrow> Inr v)"

definition absent :: "string option \<Rightarrow> bool" where
  "absent item = (case item of None \<Rightarrow> True | Some s \<Rightarrow> s = [])"

definition template :: "string option \<Rightarrow> string" where
  "template item = (case item of None \<Rightarrow> ''null'' | Some s \<Rightarrow> s)"

definition String_js :: "host \<Rightarrow> jsval \<Rightarrow> string" where
  "String_js h v =
     (case v of
        JStr s \<Rightarrow> s
      | JUndefined \<Rightarrow> ''undefined''
      | JNull \<Rightarrow> ''null''
      | JBool b \<Rightarrow> (if b then ''true'' else ''false'')
      | _ \<Rightarrow> ToString h v)"

definition now_iso :: "host \<Rightarrow> world \<Rightarrow> string \<times> world" where
  "now_iso h w = (toISOString h (clock h (ticks w)), w\<lparr>ticks := Suc (ticks w)\<rparr>)"

definition getAuthToken :: "world \<Rightarrow> string option" where
  "getAuthToken w = sessionStorage w ''firebaseToken''"

definition getCurrentUser :: "world \<Rightarrow> jsval" where
  "getCurrentUser w = currentUser w"

definition json_headers :: "string \<Rightarrow> (string \<times> string) list" where
  "json_headers token =
     [(''Authorization'', ''Bearer '' @ token), (''Content-Type'', ''application/json'')]"

definition refreshAuthToken :: "host \<Rightarrow> world \<Rightarrow> (error + jsval) \<times> world" where
  "refreshAuthToken h w =
     (let refreshToken = sessionStorage w ''refreshToken'' in
      if absent refreshToken then (Inl (Error ''No refresh token available''), w)
      else
        (case fetch
                \<lparr>meth = ''POST'',
                 url = ''https://securetoken.googleapis.com/v1/token?key='' @ apiKey h,
                 headers = [(''Content-Type'', ''application/json'')],
                 body = Some (JObj [(''grant_type'', JStr ''refresh_token''),
                                    (''refresh_token'', JStr (template refreshToken))])\<rparr> w of
           (Inl e, w1) \<Rightarrow> (Inl e, w1)
         | (Inr (status, json), w1) \<Rightarrow>
             if \<not> ok status then (Inl (Error ''Failed to refresh token''), w1)
             else
               (case response_json json of
                  Inl e \<Rightarrow> (Inl e, w1)
                | Inr data \<Rightarrow>
                    (case get_prop data ''id_token'' of
                       Inl e \<Rightarrow> (Inl e, w1)
                     | Inr id_token \<Rightarrow>
                         (Inr id_token,
                          w1\<lparr>sessionStorage :=
                               (sessionStorage w1)
                                 (''firebaseToken'' \<mapsto> String_js h id_token,
                                  ''refreshToken'' \<mapsto> String_js h (member data ''refresh_token''))\<rparr>)))))"



section \<open>Document sync\<close>

text \<open>
  Each function takes the state and returns its result, or the exception it raises,
  with the new state. \<^verbatim>\<open>try { ... } catch (error) { console.error(...); throw error; }\<close>
  passes the exception on unchanged. \<open>defaultGames\<close> evaluates
  \<^verbatim>\<open>getDefaultGameFields()\<close> once per game of the literal \<^verbatim>\<open>initialData\<close>, in the order
  written, each call reading the clock. In \<^verbatim>\<open>createUserDocument\<close> the first property
  read on the user, \<^verbatim>\<open>user.email\<close>, raises when no user is signed in.

  \<^verbatim>\<open>updateGameData\<close> is split into the steps its comments name. \<open>prependSession\<close>
  is "get current user data" up to "keep only last 30 sessions", on the value
  \<^verbatim>\<open>userData\<close> already read: it returns \<^verbatim>\<open>gameData.sessions\<close> as it is after these
  lines, the array that \<^verbatim>\<open>unshift\<close> changed in place or the one that \<^verbatim>\<open>slice\<close>
  made. \<open>firestoreUpdate\<close> is "convert to Firestore format", with \<open>encode_sessions\<close>
  the function that \<^verbatim>\<open>gameData.sessions.map\<close> applies, and the function itself reads,
  runs the two steps and sends the write. The assignment
  \<^verbatim>\<open>gameData.personalBests = personalBests\<close> is left out: \<^verbatim>\<open>gameData\<close> is an object
  at that point, and only its \<^verbatim>\<open>sessions\<close> are read after it. The token and the
  user id of the write are the ones read at the start of the call, as in the source.
\<close>

definition getDefaultGameFields :: "host \<Rightarrow> world \<Rightarrow> jsval \<times> world" where
  "getDefaultGameFields h w =
     (case now_iso h w of
        (lastPlayed, w1) \<Rightarrow>
          (JObj
             [(''personalBests'',
               tagged ''mapValue'' (tagged ''fields''
                 (JObj [(''sessionsPlayed'', tagged ''doubleValue'' (JNum (Fin 0))),
                        (''lastPlayed'', tagged ''timestampValue'' (JStr lastPlayed))]))),
              (''sessions'', tagged ''arrayValue'' (tagged ''values'' (JArr [])))],
           w1))"

definition gameNames :: "string list" where
  "gameNames =
     [''typing'', ''dualNBack'', ''mathGame'', ''speedProcessing'', ''stroop'', ''cpt'',
      ''taskSwitching'']"

fun defaultGames :: "host \<Rightarrow> string list \<Rightarrow> world \<Rightarrow> (string \<times> jsval) list \<times> world" where
  "defaultGames h [] w = ([], w)"
| "defaultGames h (g # gs) w =
     (case getDefaultGameFields h w of
        (flds, w1) \<Rightarrow>
          (case defaultGames h gs w1 of
             (rest, w2) \<Rightarrow> ((g, tagged ''mapValue'' (tagged ''fields'' flds)) # rest, w2)))"

definition createUserDocument :: "host \<Rightarrow> world \<Rightarrow> (error + jsval) \<times> world" where
  "createUserDocument h w =
     (let userId = sessionStorage w ''userId'';
          token = getAuthToken w;
          user = getCurrentUser w;
          docPath = getUserDocPath h userId;
          url = firestoreUrl h @ ''/'' @ docPath
      in
        if nullish user then (Inl TypeError, w)
        else
          (case now_iso h w of
             (createdAt, w1) \<Rightarrow>
               (case defaultGames h gameNames w1 of
                  (games, w2) \<Rightarrow>
                    (let initialData =
                           JObj [(''fields'',
                             JObj ((''profile'',
                                tagged ''mapValue'' (tagged ''fields''
                                  (JObj [(''email'', tagged ''stringValue'' (js_or (member user ''email'') (JStr ''''))),
                                         (''displayName'', tagged ''stringValue'' (js_or (member user ''displayName'') (JStr ''''))),
                                         (''photoURL'', tagged ''stringValue'' (js_or (member user ''photoURL'') (JStr ''''))),
                                         (''createdAt'', tagged ''timestampValue'' (JStr createdAt))])))
                               # games))]
                     in
                       (case fetch \<lparr>meth = ''PATCH'', url = url,
                                    headers = json_headers (template token),
                                    body = Some initialData\<rparr> w2 of
                          (Inl e, w3) \<Rightarrow> (Inl e, w3)
                        | (Inr (status, json), w3) \<Rightarrow>
                            if \<not> ok status then (Inl (Error ''Failed to create user document''), w3)
                            else
                              (case response_json json of
                                 Inl e \<Rightarrow> (Inl e, w3)
                               | Inr firestoreDoc \<Rightarrow> (parseFirestoreDocument h firestoreDoc, w3)))))))"

definition readUserDataWithToken :: "host \<Rightarrow> jsval \<Rightarrow> world \<Rightarrow> (error + jsval) \<times> world" where
  "readUserDataWithToken h token w =
     (let userId = sessionStorage w ''userId'';
          docPath = getUserDocPath h userId;
          url = firestoreUrl h @ ''/'' @ docPath
      in
        (case fetch \<lparr>meth = ''GET'', url = url,
                     headers = json_headers (String_js h token), body = None\<rparr> w of
           (Inl e, w1) \<Rightarrow> (Inl e, w1)
         | (Inr (status, json), w1) \<Rightarrow>
             if \<not> ok status then
               (Inl (Error ''Failed to read user data after token refresh''), w1)
             else
               (case response_json json of
                  Inl e \<Rightarrow> (Inl e, w1)
                | Inr firestoreDoc \<Rightarrow> (parseFirestoreDocument h firestoreDoc, w1))))"

definition readUserData :: "host \<Rightarrow> world \<Rightarrow> (error + jsval) \<times> world" where
  "readUserData h w =
     (let userId = sessionStorage w ''userId'';
          token = getAuthToken w
      in
        if absent userId \<or> absent token then (Inl (Error ''User not authenticated''), w)
        else
          (let docPath = getUserDocPath h userId;
               url = firestoreUrl h @ ''/'' @ docPath
           in
             (case fetch \<lparr>meth = ''GET'', url = url,
                          headers = json_headers (template token), body = None\<rparr> w of
                (Inl e, w1) \<Rightarrow> (Inl e, w1)
              | (Inr (status, json), w1) \<Rightarrow>
                  if status = 404 then createUserDocument h w1
                  else if \<not> ok status then
                    (if status = 401 then
                       (case refreshAuthToken h w1 of
                          (Inl e, w2) \<Rightarrow> (Inl e, w2)
                        | (Inr newToken, w2) \<Rightarrow> readUserDataWithToken h newToken w2)
                     else (Inl (Error ''Failed to read user data''), w1))
                  else
                    (case response_json json of
                       Inl e \<Rightarrow> (Inl e, w1)
                     | Inr firestoreDoc \<Rightarrow> (parseFirestoreDocument h firestoreDoc, w1)))))"

definition keepLast30 :: "host \<Rightarrow> jsval \<Rightarrow> error + jsval" where
  "keepLast30 h sessions =
     (if exceeds (member sessions ''length'') 30 then slice h sessions 30 else Inr sessions)"

definition prependSession :: "host \<Rightarrow> jsval \<Rightarrow> string \<Rightarrow> jsval \<Rightarrow> error + jsval" where
  "prependSession h userData gameName sessionData =
     (case get_prop userData gameName of
        Inl e \<Rightarrow> Inl e
      | Inr stored \<Rightarrow>
          (let gameData = js_or stored (JObj [(''sessions'', JArr []), (''personalBests'', JObj [])]) in
             (case unshift h (member gameData ''sessions'') sessionData of
                Inl e \<Rightarrow> Inl e
              | Inr sessions \<Rightarrow> keepLast30 h sessions)))"

fun encode_sessions :: "host \<Rightarrow> jsval list \<Rightarrow> error + jsval list" where
  "encode_sessions h [] = Inr []"
| "encode_sessions h (session # rest) =
     (if session = JHole then
        (case encode_sessions h rest of
           Inl e \<Rightarrow> Inl e
         | Inr vs \<Rightarrow> Inr (JHole # vs))
      else
        (case objectToFirestoreFields h session of
           Inl e \<Rightarrow> Inl e
         | Inr fs \<Rightarrow>
             (case encode_sessions h rest of
                Inl e \<Rightarrow> Inl e
              | Inr vs \<Rightarrow> Inr (tagged ''mapValue'' (tagged ''fields'' fs) # vs))))"

definition firestoreUpdate :: "host \<Rightarrow> string \<Rightarrow> jsval \<Rightarrow> jsval \<Rightarrow> error + jsval" where
  "firestoreUpdate h gameName personalBests sessions =
     (case objectToFirestoreFields h personalBests of
        Inl e \<Rightarrow> Inl e
      | Inr bests \<Rightarrow>
          (case map_items h sessions of
             Inl e \<Rightarrow> Inl e
           | Inr items \<Rightarrow>
               (case encode_sessions h items of
                  Inl e \<Rightarrow> Inl e
                | Inr vs \<Rightarrow>
                    Inr (JObj [(''fields'',
                           JObj [(gameName,
                             tagged ''mapValue'' (tagged ''fields''
                               (JObj [(''personalBests'', tagged ''mapValue'' (tagged ''fields'' bests)),
                                      (''sessions'', tagged ''arrayValue'' (tagged ''values'' (JArr vs)))])))])]))))"

definition updateGameData :: "host \<Rightarrow> string \<Rightarrow> jsval \<Rightarrow> jsval \<Rightarrow> world \<Rightarrow> (error + jsval) \<times> world" where
  "updateGameData h gameName sessionData personalBests w =
     (let userId = sessionStorage w ''userId'';
          token = getAuthToken w
      in
        if absent userId \<or> absent token then (Inl (Error ''User not authenticated''), w)
        else
          (case readUserData h w of
             (Inl e, w1) \<Rightarrow> (Inl e, w1)
           | (Inr userData, w1) \<Rightarrow>
               (case prependSession h userData gameName sessionData of
                  Inl e \<Rightarrow> (Inl e, w1)
                | Inr sessions \<Rightarrow>
                    (case firestoreUpdate h gameName personalBests sessions of
                       Inl e \<Rightarrow> (Inl e, w1)
                     | Inr update \<Rightarrow>
                         (let docPath = getUserDocPath h userId;
                              url = firestoreUrl h @ ''/'' @ docPath @ ''?updateMask.fieldPaths='' @ gameName
                          in
                            (case fetch \<lparr>meth = ''PATCH'', url = url,
                                         headers = json_headers (template token),
                                         body = Some update\<rparr> w1 of
                               (Inl e, w2) \<Rightarrow> (Inl e, w2)
                             | (Inr (status, json), w2) \<Rightarrow>
                                 if \<not> ok status then (Inl (Error ''Failed to update game data''), w2)
                                 else
                                   (case response_json json of
                                      Inl e \<Rightarrow> (Inl e, w2)
                                    | Inr result \<Rightarrow> (Inr result, w2))))))))"

section \<open>Migration of legacy local records\<close>

text \<open>
  \<open>spread src target\<close> is the object literal \<^verbatim>\<open>{ ...target, ...src }\<close>: the own
  properties of \<open>src\<close> are defined on the target in their order (nothing for \<^verbatim>\<open>null\<close>
  and \<^verbatim>\<open>undefined\<close>). The whole body of \<^verbatim>\<open>migrateLocalStorage\<close> is inside \<^verbatim>\<open>try\<close>,
  and the \<^verbatim>\<open>catch\<close> returns \<^verbatim>\<open>false\<close>: the result is a boolean, never an exception.
\<close>

definition spread :: "jsval \<Rightarrow> (string \<times> jsval) list \<Rightarrow> (string \<times> jsval) list" where
  "spread src target = fold (\<lambda>(k, v) acc. AList.update k v acc) (if nullish src then [] else entries src) target"

definition migrateLocalStorage :: "host \<Rightarrow> string \<Rightarrow> string \<Rightarrow> world \<Rightarrow> bool \<times> world" where
  "migrateLocalStorage h gameName localStorageKey w =
     (let localData = localStorage w localStorageKey in
        if absent localData then (False, w)
        else
          (case JSON_parse h (template localData) of
             Inl e \<Rightarrow> (False, w)
           | Inr parsedData \<Rightarrow>
               (case get_prop parsedData ''lastPlayed'' of
                  Inl e \<Rightarrow> (False, w)
                | Inr lastPlayed \<Rightarrow>
                    (case (if truthy lastPlayed then (lastPlayed, w)
                           else (case now_iso h w of (isoStr, w1) \<Rightarrow> (JStr isoStr, w1))) of
                       (timestamp, w1) \<Rightarrow>
                         (let session =
                                JObj (AList.delete ''lastPlayed''
                                        (spread parsedData [(''timestamp'', timestamp)]))
                          in
                            (case updateGameData h gameName session parsedData w1 of
                               (Inl e, w2) \<Rightarrow> (False, w2)
                             | (Inr _, w2) \<Rightarrow>
                                 (True, w2\<lparr>localStorage := (localStorage w2)(localStorageKey := None)\<rparr>)))))))"

section \<open>A concrete host for examples\<close>

text \<open>
  Closed examples need one host. This one formats and reads back the epoch, parses one
  legacy record (the text \<open>legacy_stroop\<close>) and rejects every other text, converts
  what is not a number to \<^verbatim>\<open>NaN\<close>, and places the document of user \<open>u\<close> at
  \<^verbatim>\<open>users/u\<close>.
\<close>

definition legacy_stroop :: string where
  "legacy_stroop = ''{\"highScore\":50,\"lastPlayed\":\"2024-01-01\"}''"

definition host0 :: host where
  "host0 =
     \<lparr>toISOString =
        (\<lambda>t. if t = 0 then ''1970-01-01T00:00:00.000Z'' else ''2024-01-01T00:00:00.000Z''),
      newDate =
        (\<lambda>v. if v = JStr ''1970-01-01T00:00:00.000Z'' then Inr (Some 0) else Inr None),
      parseInt = (\<lambda>v. Inr NaN),
      ToString = (\<lambda>v. ''[object Object]''),
      ToNumber = (\<lambda>v. Inr NaN),
      JSON_parse =
        (\<lambda>s. if s = legacy_stroop
             then Inr (JObj [(''highScore'', JNum (Fin 50)), (''lastPlayed'', JStr ''2024-01-01'')])
             else Inl SyntaxError),
      clock = (\<lambda>n. 0),
      firestoreUrl = ''https://firestore.googleapis.com/v1/projects/p/databases/(default)/documents'',
      apiKey = ''key'',
      getUserDocPath = (\<lambda>u. ''users/'' @ template u)\<rparr>"

section \<open>Notions used to state the properties\<close>

subsection \<open>Well-formed wire values\<close>

text \<open>
  \<open>scalar_tag v\<close> is the first of the six scalar tags that is set on \<open>v\<close>, in the order
  \<^verbatim>\<open>parseFirestoreValue\<close> tests them. A wire value is well formed when it is an object
  and, where the decoder descends, it finds well-formed wire values again: the entries
  of a map tag's \<^verbatim>\<open>fields\<close>, the elements of an array tag's \<^verbatim>\<open>values\<close>, which must be
  an array when present; and the host's \<^verbatim>\<open>parseInt\<close> and \<^verbatim>\<open>Date\<close> accept the payload
  of an integer or a timestamp tag.
\<close>

definition scalar_tags :: "string list" where
  "scalar_tags =
     [''stringValue'', ''doubleValue'', ''integerValue'', ''booleanValue'', ''timestampValue'',
      ''nullValue'']"

definition scalar_tag :: "jsval \<Rightarrow> string option" where
  "scalar_tag v = find (\<lambda>t. member v t \<noteq> JUndefined) scalar_tags"

definition fields_of :: "jsval \<Rightarrow> jsval" where
  "fields_of v = js_or (member (member v ''mapValue'') ''fields'') (JObj [])"

definition values_of :: "jsval \<Rightarrow> jsval" where
  "values_of v = js_or (member (member v ''arrayValue'') ''values'') (JArr [])"

inductive wire_value :: "host \<Rightarrow> jsval \<Rightarrow> bool" for h where
  wire_scalar:
    "\<not> nullish v \<Longrightarrow> scalar_tag v = Some t \<Longrightarrow>
     (t = ''integerValue'' \<longrightarrow> \<not> isl (parseInt h (member v t))) \<Longrightarrow>
     (t = ''timestampValue'' \<longrightarrow> \<not> isl (newDate h (member v t))) \<Longrightarrow>
     wire_value h v"
| wire_map:
    "\<not> nullish v \<Longrightarrow> scalar_tag v = None \<Longrightarrow> truthy (member v ''mapValue'') \<Longrightarrow>
     (\<forall>x \<in> snd ` set (entries (fields_of v)). wire_value h x) \<Longrightarrow>
     wire_value h v"
| wire_array:
    "\<not> nullish v \<Longrightarrow> scalar_tag v = None \<Longrightarrow> \<not> truthy (member v ''mapValue'') \<Longrightarrow>
     truthy (member v ''arrayValue'') \<Longrightarrow> values_of v = JArr vs \<Longrightarrow>
     (\<forall>x \<in> set vs. wire_value h x) \<Longrightarrow>
     wire_value h v"
| wire_untagged:
    "\<not> nullish v \<Longrightarrow> scalar_tag v = None \<Longrightarrow> \<not> truthy (member v ''mapValue'') \<Longrightarrow>
     \<not> truthy (member v ''arrayValue'') \<Longrightarrow>
     wire_value h v"

subsection \<open>Supported native values\<close>

text \<open>
  The native values on which encoding followed by decoding is the identity: numbers,
  strings, booleans, \<^verbatim>\<open>null\<close>, valid dates whose ISO string the host's \<^verbatim>\<open>Date\<close>
  constructor reads back, keyed objects of such values (with the prototype of an object
  literal, no key twice and no key \<^verbatim>\<open>__proto__\<close>), and arrays whose elements are
  numbers, strings, booleans or supported keyed objects. A session entry is a supported
  keyed object, and \<open>record_object\<close> holds of the objects that the decoder builds
  from \<^verbatim>\<open>{}\<close>.
  \<open>tag_of\<close> is the tagged value that the encoder stores for a supported value;
  \<open>roundtrip\<close> decodes the encoding of an object as a document,
  \<open>roundtrip_value\<close> as a map-tagged value.
\<close>

definition scalar_item :: "jsval \<Rightarrow> bool" where
  "scalar_item x = (case x of JNum n \<Rightarrow> True | JStr s \<Rightarrow> True | JBool b \<Rightarrow> True | _ \<Rightarrow> False)"

definition keyed_object :: "jsval \<Rightarrow> bool" where
  "keyed_object x = (case x of JObj kvs \<Rightarrow> True | _ \<Rightarrow> False)"

fun supported :: "host \<Rightarrow> jsval \<Rightarrow> bool" where
  "supported h (JObj kvs) =
     (distinct (map fst kvs) \<and> ''__proto__'' \<notin> set (map fst kvs) \<and>
      (\<forall>(k, v) \<in> set kvs. supported h v))"
| "supported h (JArr xs) = (\<forall>x \<in> set xs. (scalar_item x \<or> keyed_object x) \<and> supported h x)"
| "supported h (JDate t) =
     (case t of
        None \<Rightarrow> False
      | Some ms \<Rightarrow> newDate h (JStr (toISOString h ms)) = Inr (Some ms))"
| "supported h JUndefined = False"
| "supported h JFun = False"
| "supported h JHole = False"
| "supported h (JProto p kvs) = False"
| "supported h _ = True"

fun tag_of :: "host \<Rightarrow> jsval \<Rightarrow> jsval" where
  "tag_of h (JObj kvs) =
     tagged ''mapValue'' (tagged ''fields'' (JObj (map (\<lambda>(k, v). (k, tag_of h v)) kvs)))"
| "tag_of h (JArr xs) = tagged ''arrayValue'' (tagged ''values'' (JArr (map (tag_of h) xs)))"
| "tag_of h (JDate t) =
     (case t of
        None \<Rightarrow> JUndefined
      | Some ms \<Rightarrow> tagged ''timestampValue'' (JStr (toISOString h ms)))"
| "tag_of h JNull = tagged ''nullValue'' JNull"
| "tag_of h (JNum n) = tagged ''doubleValue'' (JNum n)"
| "tag_of h (JStr s) = tagged ''stringValue'' (JStr s)"
| "tag_of h (JBool b) = tagged ''booleanValue'' (JBool b)"
| "tag_of h _ = JUndefined"

definition roundtrip :: "host \<Rightarrow> jsval \<Rightarrow> error + jsval" where
  "roundtrip h x =
     (case objectToFirestoreFields h x of
        Inl e \<Rightarrow> Inl e
      | Inr fs \<Rightarrow> parseFirestoreDocument h (JObj [(''fields'', fs)]))"

definition roundtrip_value :: "host \<Rightarrow> jsval \<Rightarrow> error + jsval" where
  "roundtrip_value h x =
     (case objectToFirestoreFields h x of
        Inl e \<Rightarrow> Inl e
      | Inr fs \<Rightarrow> parseFirestoreValue h (tagged ''mapValue'' (tagged ''fields'' fs)))"

definition record_object :: "jsval \<Rightarrow> bool" where
  "record_object v = (case v of JObj kvs \<Rightarrow> True | JProto p kvs \<Rightarrow> True | _ \<Rightarrow> False)"


definition encodes :: "host \<Rightarrow> jsval \<Rightarrow> bool" where
  "encodes h v =
     ((\<forall>kvs. v = JObj kvs \<longrightarrow>
         objectToFirestoreFields h v = Inr (JObj (map (\<lambda>(k, v). (k, tag_of h v)) kvs))) \<and>
      (\<forall>xs. v = JArr xs \<longrightarrow> encode_items h xs = Inr (map (tag_of h) xs)))"

subsection \<open>Requests and example sessions\<close>

text \<open>
  \<open>path v ks\<close> follows the property names \<open>ks\<close> into \<open>v\<close>. The next definitions name
  the requests that the functions build, so that properties can say which requests were
  sent: the write of \<^verbatim>\<open>createUserDocument\<close>, the read of \<^verbatim>\<open>readUserData\<close> with a given
  token, and the token refresh. \<open>refresh_succeeds\<close> holds of the pending replies when the
  next one answers a refresh with a success status and a JSON body that is an object or
  another value with properties; \<open>refreshed_token\<close> is the token that reply carries.
  \<open>session replies\<close> is a signed-in page with the given replies pending.
\<close>

definition path :: "jsval \<Rightarrow> string list \<Rightarrow> jsval" where
  "path v ks = foldl member v ks"

definition create_request :: "host \<Rightarrow> world \<Rightarrow> jsval \<Rightarrow> request" where
  "create_request h w doc =
     \<lparr>meth = ''PATCH'',
      url = firestoreUrl h @ ''/'' @ getUserDocPath h (sessionStorage w ''userId''),
      headers = json_headers (template (getAuthToken w)),
      body = Some doc\<rparr>"

definition empty_game :: "jsval \<Rightarrow> string \<Rightarrow> bool" where
  "empty_game doc g =
     (path doc [''fields'', g, ''mapValue'', ''fields'', ''sessions'', ''arrayValue'', ''values''] = JArr [] \<and>
      path doc [''fields'', g, ''mapValue'', ''fields'', ''personalBests'', ''mapValue'', ''fields'',
                ''sessionsPlayed'', ''doubleValue''] = JNum (Fin 0))"

definition default_sub_record :: "string \<Rightarrow> jsval" where
  "default_sub_record t =
     tagged ''mapValue'' (tagged ''fields''
       (JObj [(''personalBests'',
               tagged ''mapValue'' (tagged ''fields''
                 (JObj [(''sessionsPlayed'', tagged ''doubleValue'' (JNum (Fin 0))),
                        (''lastPlayed'', tagged ''timestampValue'' (JStr t))]))),
              (''sessions'', tagged ''arrayValue'' (tagged ''values'' (JArr [])))]))"

definition profile_fields :: "jsval \<Rightarrow> string \<Rightarrow> jsval" where
  "profile_fields user created =
     JObj [(''email'', tagged ''stringValue'' (js_or (member user ''email'') (JStr []))),
           (''displayName'', tagged ''stringValue'' (js_or (member user ''displayName'') (JStr []))),
           (''photoURL'', tagged ''stringValue'' (js_or (member user ''photoURL'') (JStr []))),
           (''createdAt'', tagged ''timestampValue'' (JStr created))]"





definition session :: "reply list \<Rightarrow> world" where
  "session replies =
     \<lparr>sessionStorage =
        [''firebaseToken'' \<mapsto> ''tok'', ''refreshToken'' \<mapsto> ''ref'', ''userId'' \<mapsto> ''u1'',
         ''userEmail'' \<mapsto> ''ada@example.org'', ''userDisplayName'' \<mapsto> ''Ada'',
         ''userPhotoURL'' \<mapsto> []],
      localStorage = Map.empty,
      currentUser =
        JObj [(''uid'', JStr ''u1''), (''email'', JStr ''ada@example.org''),
              (''displayName'', JStr ''Ada''), (''photoURL'', JStr [])],
      network = replies,
      sent = [],
      ticks = 0\<rparr>"

subsection \<open>Session histories\<close>

text \<open>
  \<open>written_sessions\<close> is the sessions array inside a write's body, and
  \<open>stored_sessions h g doc\<close> is what a reader of the stored document \<open>doc\<close> finds as
  the sessions of the category \<open>g\<close>: the document is decoded and the property read.

  Modelled from the spec: the remote document store, which is not part of the
  repository ("creates/updates are PATCH with an optional field-mask query parameter
  restricting the write to named top-level fields"). \<open>field_mask u\<close> reads the paths
  named by the \<^verbatim>\<open>updateMask.fieldPaths\<close> parameters of the query of \<open>u\<close>, and
  \<open>document_after r doc\<close> is the stored document after the write \<open>r\<close>: without a mask
  the written fields replace the document; with a mask each named field is replaced by
  what the body gives for it, or removed when the body gives nothing, and every other
  field is kept.

  \<open>stores_sessions h g doc ss\<close> describes a stored document that a client can work
  with: its fields are listed once each and every one of them decodes, and the category
  \<open>g\<close> is among them and decodes to a sub-record whose sessions are the list \<open>ss\<close>
  of session entries.

  \<open>replay h g calls doc w\<close> runs \<^verbatim>\<open>updateGameData\<close> for the category \<open>g\<close> once per
  element of \<open>calls\<close>, a session entry with the new personal bests, against a store
  that holds \<open>doc\<close>: the read of each call is answered with the stored document, its
  write is answered with success and applied to the stored document. The result is the
  document stored after the last call, or the first exception.
\<close>

definition written_sessions :: "string \<Rightarrow> jsval \<Rightarrow> jsval" where
  "written_sessions gameName update =
     path update [''fields'', gameName, ''mapValue'', ''fields'', ''sessions'', ''arrayValue'',
                  ''values'']"







subsection \<open>What a call leaves unchanged\<close>

text \<open>
  \<open>unchanged_but_network w w'\<close>: from \<open>w\<close> to \<open>w'\<close> the local storage, the current user
  and the stored user id are the same, replies were only consumed from the front of the
  pending ones, and requests were only added at the end. \<open>update_request\<close> is the write
  that \<^verbatim>\<open>updateGameData\<close> builds, \<open>write_outcome\<close> what it returns for the answer to
  that write, and \<open>legacy_session\<close> a signed-in page that still holds the legacy record
  of the stroop game.
\<close>

definition unchanged_but_network :: "world \<Rightarrow> world \<Rightarrow> bool" where
  "unchanged_but_network w w' =
     (localStorage w' = localStorage w \<and> currentUser w' = currentUser w \<and>
      sessionStorage w' ''userId'' = sessionStorage w ''userId'' \<and>
      (\<exists>pre. network w = pre @ network w') \<and> (\<exists>new. sent w' = sent w @ new))"

definition update_request :: "host \<Rightarrow> world \<Rightarrow> string \<Rightarrow> jsval \<Rightarrow> request" where
  "update_request h w gameName update =
     \<lparr>meth = ''PATCH'',
      url = firestoreUrl h @ ''/'' @ getUserDocPath h (sessionStorage w ''userId'') @
            ''?updateMask.fieldPaths='' @ gameName,
      headers = json_headers (template (getAuthToken w)),
      body = Some update\<rparr>"

definition write_outcome :: "error + nat \<times> jsval option \<Rightarrow> error + jsval" where
  "write_outcome fetched =
     (case fetched of
        Inl e \<Rightarrow> Inl e
      | Inr (status, js) \<Rightarrow>
          if \<not> ok status then Inl (Error ''Failed to update game data'') else response_json js)"

definition legacy_session :: "reply list \<Rightarrow> world" where
  "legacy_session replies =
     (session replies)\<lparr>localStorage := [''focus-games-stroop'' \<mapsto> legacy_stroop]\<rparr>"

subsection \<open>The remote store's field mask\<close>





subsection \<open>What the runtime raises\<close>

definition thrown_by_runtime :: "error \<Rightarrow> bool" where
  "thrown_by_runtime e = (e = TypeError \<or> e = RangeError)"

definition runtime_error :: "error + 'a \<Rightarrow> bool" where
  "runtime_error r = (case r of Inl e \<Rightarrow> thrown_by_runtime e | Inr x \<Rightarrow> True)"

section \<open>Properties of the encoder\<close>

lemma encode_loop_drops_functions:
  "encode_loop h kvs acc = encode_loop h (filter (\<lambda>(k, v). v \<noteq> JFun) kvs) acc"
proof (induction kvs arbitrary: acc)
  case Nil
  show ?case by simp
next
  case (Cons kv kvs)
  obtain k v where kv: "kv = (k, v)" by (cases kv)
  show ?case
  proof (cases "v = JFun")
    case True
    then show ?thesis using Cons.IH [of acc] by (simp add: kv typeof_def isArray_def)
  next
    case False
    then show ?thesis by (simp add: kv Cons.IH split: sum.splits)
  qed
qed

lemma runtime_error_simps [simp]:
  "runtime_error (Inr x)"
  "runtime_error (Inl e) = thrown_by_runtime e"
  "thrown_by_runtime TypeError"
  "thrown_by_runtime RangeError"
  by (simp_all add: runtime_error_def thrown_by_runtime_def)

lemma call_toISOString_errors: "runtime_error (call_toISOString h v)"
  by (cases v) (simp_all add: call_toISOString_def Date_toISOString_def split: option.splits)

lemma encode_errors:
  "runtime_error (objectToFirestoreFields h obj)"
  "runtime_error (encode_loop h ents acc)"
  "runtime_error (encode_items h items)"
proof (induction h obj and h ents acc and h items
    rule: objectToFirestoreFields_encode_loop_encode_items.induct)
  case (1 h obj)
  then show ?case by (simp add: objectToFirestoreFields.simps)
next
  case (2 h flds)
  show ?case by simp
next
  case (3 h key v rest flds)
  show ?case
  proof (cases "v = JNull \<or> v = JUndefined")
    case True
    with 3(1) show ?thesis by simp
  next
    case notnull: False
    show ?thesis
    proof (cases "typeof v = ''number'' \<or> typeof v = ''string'' \<or> typeof v = ''boolean''")
      case True
      with notnull 3(2) 3(3) 3(4) show ?thesis by auto
    next
      case prim: False
      show ?thesis
      proof (cases "instanceof_Date v")
        case True
        show ?thesis
        proof (cases "call_toISOString h v")
          case (Inl e)
          with notnull prim True call_toISOString_errors [of h v] show ?thesis by simp
        next
          case (Inr b)
          with notnull prim True 3(5) [of b] show ?thesis by simp
        qed
      next
        case nodate: False
        show ?thesis
        proof (cases "isArray v")
          case True
          show ?thesis
          proof (cases "encode_items h (array_items v)")
            case (Inl e)
            with notnull prim nodate True 3(6) show ?thesis by simp
          next
            case (Inr b)
            with notnull prim nodate True 3(7) [of b] show ?thesis by simp
          qed
        next
          case noarr: False
          show ?thesis
          proof (cases "typeof v = ''object''")
            case True
            show ?thesis
            proof (cases "objectToFirestoreFields h v")
              case (Inl e)
              with notnull prim nodate noarr True 3(8) show ?thesis by simp
            next
              case (Inr b)
              with notnull prim nodate noarr True 3(9) [of b] show ?thesis by simp
            qed
          next
            case False
            with notnull prim nodate noarr 3(10) show ?thesis by simp
          qed
        qed
      qed
    qed
  qed
next
  case (4 h)
  show ?case by simp
next
  case (5 h item items)
  show ?case
  proof (cases "item = JHole")
    case True
    with 5(1) show ?thesis by (cases "encode_items h items") simp_all
  next
    case nohole: False
    show ?thesis
    proof (cases "typeof item = ''object''")
      case True
      show ?thesis
      proof (cases "objectToFirestoreFields h item")
        case (Inl e)
        with nohole True 5(2) show ?thesis by simp
      next
        case (Inr fs)
        with nohole True 5(4) [of "tagged ''mapValue'' (tagged ''fields'' fs)"] show ?thesis
          by (cases "encode_items h items") simp_all
      qed
    next
      case False
      show ?thesis
      proof (cases "objectToFirestoreFields h (JObj [(''val'', item)])")
        case (Inl e)
        with nohole False 5(3) show ?thesis by simp
      next
        case (Inr fs)
        show ?thesis
        proof (cases "get_prop fs ''val''")
          case (Inl e)
          then have "e = TypeError" by (simp add: get_prop_def split: if_splits)
          with nohole False Inr Inl show ?thesis by simp
        next
          case v: (Inr x)
          with nohole False Inr 5(4) [of x] show ?thesis
            by (cases "encode_items h items") simp_all
        qed
      qed
    qed
  qed
qed

text \<open>
  C7 (as amended). The encoder has no \<^verbatim>\<open>UnsupportedType\<close> failure. On every input the
  only exceptions it can raise are the runtime's \<open>TypeError\<close> (an array element or an
  argument that is \<^verbatim>\<open>null\<close>, an object that inherits from a date) and \<open>RangeError\<close>
  (an invalid date); and a property whose value is a function is left out of the result
  without any failure: encoding an object gives the same result as encoding it with its
  function-valued properties removed.
  Inputs are finite trees, on which the recursion terminates; the code has no guard
  against cycles.
\<close>

theorem encode_unsupported_silently_dropped:
  "runtime_error (objectToFirestoreFields h obj) \<and>
   objectToFirestoreFields h (JObj kvs) =
     objectToFirestoreFields h (JObj (filter (\<lambda>(k, v). v \<noteq> JFun) kvs))"
  using encode_errors(1) [of h obj] encode_loop_drops_functions [of h kvs "JObj []"]
  by (simp add: objectToFirestoreFields.simps nullish_def entries_def)

text \<open>
  C7 as stated fails: an object whose only property is a function is encoded to the
  empty field set, and no error is raised.
\<close>

theorem encode_function_value_counterexample:
  "objectToFirestoreFields host0 (JObj [(''onDone'', JFun)]) = Inr (JObj [])"
  by (simp add: objectToFirestoreFields.simps nullish_def entries_def typeof_def isArray_def)

section \<open>Properties of the decoder\<close>

lemma member_JObj:
  "member (JObj kvs) k =
     (case map_of kvs k of
        Some x \<Rightarrow> x
      | None \<Rightarrow>
          if k \<in> set Object_prototype_keys then JFun
          else if k = ''__proto__'' then JObj []
          else JUndefined)"
  by (simp add: member_def entries_def builtin_def prototype_def split: option.splits)

lemma scalar_tag_None:
  "scalar_tag v = None \<longleftrightarrow>
     member v ''stringValue'' = JUndefined \<and> member v ''doubleValue'' = JUndefined \<and>
     member v ''integerValue'' = JUndefined \<and> member v ''booleanValue'' = JUndefined \<and>
     member v ''timestampValue'' = JUndefined \<and> member v ''nullValue'' = JUndefined"
  by (simp add: scalar_tag_def scalar_tags_def find_None_iff)

lemma parse_untagged:
  assumes "\<not> nullish v" and "scalar_tag v = None"
  shows "parseFirestoreValue h v =
     (if truthy (member v ''mapValue'') then
        parse_entries h (entries (fields_of v)) (JObj [])
      else if truthy (member v ''arrayValue'') then
        (case values_of v of
           JArr vs \<Rightarrow>
             (case parse_values h vs of
                Inl e \<Rightarrow> Inl e
              | Inr xs \<Rightarrow> Inr (JArr xs))
         | _ \<Rightarrow> Inl TypeError)
      else Inr JNull)"
  using assms by (simp add: parseFirestoreValue.simps [of h v] scalar_tag_None fields_of_def values_of_def)

lemma scalar_tag_unfold:
  "scalar_tag v =
     (if member v ''stringValue'' \<noteq> JUndefined then Some ''stringValue''
      else if member v ''doubleValue'' \<noteq> JUndefined then Some ''doubleValue''
      else if member v ''integerValue'' \<noteq> JUndefined then Some ''integerValue''
      else if member v ''booleanValue'' \<noteq> JUndefined then Some ''booleanValue''
      else if member v ''timestampValue'' \<noteq> JUndefined then Some ''timestampValue''
      else if member v ''nullValue'' \<noteq> JUndefined then Some ''nullValue''
      else None)"
  by (simp add: scalar_tag_def scalar_tags_def)

lemma parse_scalar:
  assumes "\<not> nullish v" and "scalar_tag v = Some t"
    and "t = ''integerValue'' \<longrightarrow> \<not> isl (parseInt h (member v t))"
    and "t = ''timestampValue'' \<longrightarrow> \<not> isl (newDate h (member v t))"
  shows "\<exists>r. parseFirestoreValue h v = Inr r"
proof (cases "member v ''stringValue'' \<noteq> JUndefined \<or> member v ''doubleValue'' \<noteq> JUndefined")
  case True
  with assms(1) show ?thesis by (auto simp: parseFirestoreValue.simps [of h v])
next
  case early: False
  show ?thesis
  proof (cases "member v ''integerValue'' \<noteq> JUndefined")
    case True
    with early assms(2) have "t = ''integerValue''" by (simp add: scalar_tag_unfold)
    with assms(3) obtain n where "parseInt h (member v ''integerValue'') = Inr n"
      by (cases "parseInt h (member v ''integerValue'')") auto
    with True early assms(1) show ?thesis by (simp add: parseFirestoreValue.simps [of h v])
  next
    case noint: False
    show ?thesis
    proof (cases "member v ''booleanValue'' \<noteq> JUndefined")
      case True
      with noint early assms(1) show ?thesis by (simp add: parseFirestoreValue.simps [of h v])
    next
      case nobool: False
      show ?thesis
      proof (cases "member v ''timestampValue'' \<noteq> JUndefined")
        case True
        with nobool noint early assms(2) have "t = ''timestampValue''"
          by (simp add: scalar_tag_unfold)
        with assms(4) obtain d where "newDate h (member v ''timestampValue'') = Inr d"
          by (cases "newDate h (member v ''timestampValue'')") auto
        with True nobool noint early assms(1) show ?thesis
          by (simp add: parseFirestoreValue.simps [of h v])
      next
        case False
        with nobool noint early assms(2) have "member v ''nullValue'' \<noteq> JUndefined"
          by (simp add: scalar_tag_unfold split: if_splits)
        with False nobool noint early assms(1) show ?thesis
          by (simp add: parseFirestoreValue.simps [of h v])
      qed
    qed
  qed
qed

lemma parse_entries_total:
  "\<forall>x \<in> snd ` set ents. \<exists>r. parseFirestoreValue h x = Inr r \<Longrightarrow>
   \<exists>obj. parse_entries h ents acc = Inr obj"
proof (induction ents arbitrary: acc)
  case Nil
  show ?case by simp
next
  case (Cons kv ents)
  obtain k x where kv: "kv = (k, x)" by (cases kv)
  from Cons.prems kv obtain r where r: "parseFirestoreValue h x = Inr r" by auto
  from Cons.prems have "\<forall>x \<in> snd ` set ents. \<exists>r. parseFirestoreValue h x = Inr r" by simp
  then have "\<exists>obj. parse_entries h ents (assign k r acc) = Inr obj" by (rule Cons.IH)
  with r show ?case by (simp add: kv)
qed

lemma parse_values_total:
  "\<forall>x \<in> set vs. \<exists>r. parseFirestoreValue h x = Inr r \<Longrightarrow> \<exists>xs. parse_values h vs = Inr xs"
proof (induction vs)
  case Nil
  show ?case by simp
next
  case (Cons v vs)
  then obtain r xs where "parseFirestoreValue h v = Inr r" and "parse_values h vs = Inr xs"
    by auto
  then show ?case by simp
qed

lemma wire_value_decodes: "wire_value h v \<Longrightarrow> \<exists>r. parseFirestoreValue h v = Inr r"
proof (induction rule: wire_value.induct)
  case (wire_scalar v t)
  then show ?case by (intro parse_scalar)
next
  case (wire_map v)
  then have "\<exists>obj. parse_entries h (entries (fields_of v)) (JObj []) = Inr obj"
    by (intro parse_entries_total) blast
  with wire_map show ?case by (auto simp: parse_untagged)
next
  case (wire_array v vs)
  then have "\<exists>xs. parse_values h vs = Inr xs"
    by (intro parse_values_total) blast
  with wire_array show ?case by (auto simp: parse_untagged)
next
  case (wire_untagged v)
  then show ?case by (simp add: parse_untagged)
qed

lemma document_decodes:
  assumes "\<forall>x \<in> snd ` set (entries (member doc ''fields'')). wire_value h x"
  shows "\<exists>r. parseFirestoreDocument h doc = Inr r"
proof -
  from assms have "\<forall>x \<in> snd ` set (entries (member doc ''fields'')). \<exists>r. parseFirestoreValue h x = Inr r"
    using wire_value_decodes by blast
  then have "\<exists>obj. parse_entries h (entries (member doc ''fields'')) (JObj []) = Inr obj"
    by (rule parse_entries_total)
  then show ?thesis by (auto simp: parseFirestoreDocument_def)
qed

text \<open>
  C9 (as amended). \<^verbatim>\<open>parseFirestoreValue\<close> returns a value, without raising, on every
  well-formed wire value: an object in which every entry of a map tag's fields and every
  element of an array tag's values is again a well-formed wire value (never \<^verbatim>\<open>null\<close> or
  \<^verbatim>\<open>undefined\<close>) and \<^verbatim>\<open>values\<close>, when present, is an array. On any object, an
  unrecognized or empty tag decodes to \<^verbatim>\<open>null\<close>, a map tag with absent fields to the
  empty object, and an array tag with absent values to the empty array; and
  \<^verbatim>\<open>parseFirestoreDocument\<close> returns a value on every document whose fields are
  well-formed wire values.
\<close>

theorem decode_total_on_wire_values:
  "(wire_value h v \<longrightarrow> (\<exists>r. parseFirestoreValue h v = Inr r)) \<and>
   (\<not> nullish v \<and> scalar_tag v = None \<and> \<not> truthy (member v ''mapValue'') \<and>
      \<not> truthy (member v ''arrayValue'') \<longrightarrow> parseFirestoreValue h v = Inr JNull) \<and>
   (\<not> nullish v \<and> scalar_tag v = None \<and> truthy (member v ''mapValue'') \<and>
      \<not> truthy (member (member v ''mapValue'') ''fields'') \<longrightarrow>
      parseFirestoreValue h v = Inr (JObj [])) \<and>
   (\<not> nullish v \<and> scalar_tag v = None \<and> \<not> truthy (member v ''mapValue'') \<and>
      truthy (member v ''arrayValue'') \<and>
      \<not> truthy (member (member v ''arrayValue'') ''values'') \<longrightarrow>
      parseFirestoreValue h v = Inr (JArr [])) \<and>
   ((\<forall>x \<in> snd ` set (entries (member doc ''fields'')). wire_value h x) \<longrightarrow>
      (\<exists>r. parseFirestoreDocument h doc = Inr r))"
proof (intro conjI impI)
  assume "wire_value h v"
  then show "\<exists>r. parseFirestoreValue h v = Inr r" by (rule wire_value_decodes)
next
  assume "\<not> nullish v \<and> scalar_tag v = None \<and> \<not> truthy (member v ''mapValue'') \<and>
      \<not> truthy (member v ''arrayValue'')"
  then show "parseFirestoreValue h v = Inr JNull" by (simp add: parse_untagged)
next
  assume "\<not> nullish v \<and> scalar_tag v = None \<and> truthy (member v ''mapValue'') \<and>
      \<not> truthy (member (member v ''mapValue'') ''fields'')"
  then show "parseFirestoreValue h v = Inr (JObj [])"
    by (simp add: parse_untagged fields_of_def js_or_def entries_def)
next
  assume "\<not> nullish v \<and> scalar_tag v = None \<and> \<not> truthy (member v ''mapValue'') \<and>
      truthy (member v ''arrayValue'') \<and>
      \<not> truthy (member (member v ''arrayValue'') ''values'')"
  then show "parseFirestoreValue h v = Inr (JArr [])"
    by (simp add: parse_untagged values_of_def js_or_def)
next
  assume "\<forall>x \<in> snd ` set (entries (member doc ''fields'')). wire_value h x"
  then show "\<exists>r. parseFirestoreDocument h doc = Inr r" by (rule document_decodes)
qed

text \<open>
  Witness for C9: an array tag holding a string tag and an empty object; an unrecognized
  tag; a map tag without fields; an array tag without values; a document of one field.
\<close>

theorem decode_total_witness:
  "wire_value host0
     (JObj [(''arrayValue'', JObj [(''values'', JArr [JObj [(''stringValue'', JStr ''a'')], JObj []])])]) \<and>
   (\<exists>r. parseFirestoreValue host0
     (JObj [(''arrayValue'', JObj [(''values'', JArr [JObj [(''stringValue'', JStr ''a'')], JObj []])])]) = Inr r) \<and>
   parseFirestoreValue host0 (JObj [(''geoPointValue'', JObj [])]) = Inr JNull \<and>
   parseFirestoreValue host0 (JObj [(''mapValue'', JObj [])]) = Inr (JObj []) \<and>
   parseFirestoreValue host0 (JObj [(''arrayValue'', JObj [])]) = Inr (JArr []) \<and>
   (\<exists>r. parseFirestoreDocument host0
     (JObj [(''fields'', JObj [(''name'', JObj [(''stringValue'', JStr ''a'')])])]) = Inr r)"
proof -
  have a: "wire_value host0 (JObj [(''stringValue'', JStr ''a'')])"
    by (rule wire_scalar [where t = "''stringValue''"])
      (simp_all add: nullish_def scalar_tag_unfold member_JObj)
  have b: "wire_value host0 (JObj [])"
    by (rule wire_untagged)
      (simp_all add: nullish_def scalar_tag_unfold member_JObj Object_prototype_keys_def truthy_def)
  have w: "wire_value host0
     (JObj [(''arrayValue'', JObj [(''values'', JArr [JObj [(''stringValue'', JStr ''a'')], JObj []])])])"
    by (rule wire_array [where vs = "[JObj [(''stringValue'', JStr ''a'')], JObj []]"])
      (simp_all add: a b nullish_def scalar_tag_unfold member_JObj Object_prototype_keys_def truthy_def values_of_def js_or_def)
  show ?thesis
    using w
      decode_total_on_wire_values [of host0
        "JObj [(''arrayValue'', JObj [(''values'', JArr [JObj [(''stringValue'', JStr ''a'')], JObj []])])]"]
      decode_total_on_wire_values [of host0 "JObj [(''geoPointValue'', JObj [])]"]
      decode_total_on_wire_values [of host0 "JObj [(''mapValue'', JObj [])]"]
      decode_total_on_wire_values [of host0 "JObj [(''arrayValue'', JObj [])]"]
      decode_total_on_wire_values [of host0 _
        "JObj [(''fields'', JObj [(''name'', JObj [(''stringValue'', JStr ''a'')])])]"]
    by (simp add: a nullish_def scalar_tag_unfold member_JObj Object_prototype_keys_def truthy_def entries_def)
qed

text \<open>
  C9 as stated fails: the input object \<^verbatim>\<open>{arrayValue: {values: [null]}}\<close> makes
  \<^verbatim>\<open>values.map(parseFirestoreValue)\<close> call the decoder on \<^verbatim>\<open>null\<close>, whose first
  property read raises a \<open>TypeError\<close>.
\<close>

theorem decode_null_element_counterexample:
  "parseFirestoreValue host0 (JObj [(''arrayValue'', JObj [(''values'', JArr [JNull])])]) =
     Inl TypeError"
  by (simp add: parseFirestoreValue.simps nullish_def member_JObj Object_prototype_keys_def
      truthy_def js_or_def)

section \<open>The round trip\<close>

lemma update_fresh: "k \<notin> fst ` set ps \<Longrightarrow> AList.update k v ps = ps @ [(k, v)]"
  by (induction ps) auto

lemma assign_fresh:
  "k \<noteq> ''__proto__'' \<Longrightarrow> k \<notin> fst ` set ps \<Longrightarrow> assign k v (JObj ps) = JObj (ps @ [(k, v)])"
  by (simp add: assign_def define_own_def update_fresh)

lemma encode_loop_supported:
  assumes "\<forall>(k, v) \<in> set kvs. supported h v \<and> encodes h v"
    and "distinct (map fst kvs)" and "''__proto__'' \<notin> set (map fst kvs)"
    and "set (map fst kvs) \<inter> fst ` set acc = {}"
  shows "encode_loop h kvs (JObj acc) = Inr (JObj (acc @ map (\<lambda>(k, v). (k, tag_of h v)) kvs))"
  using assms
proof (induction kvs arbitrary: acc)
  case Nil
  show ?case by simp
next
  case (Cons kv kvs)
  obtain k v where kv: "kv = (k, v)" by (cases kv)
  from Cons.prems kv have sv: "supported h v" and ev: "encodes h v" by auto
  from Cons.prems kv have fresh: "k \<noteq> ''__proto__''" "k \<notin> fst ` set acc" by auto
  have step: "encode_loop h (kv # kvs) (JObj acc) = encode_loop h kvs (JObj (acc @ [(k, tag_of h v)]))"
  proof (cases v)
    case (JDate t)
    with sv obtain ms where "t = Some ms" by (cases t) auto
    with JDate show ?thesis
      by (simp add: kv typeof_def call_toISOString_def Date_toISOString_def assign_fresh [OF fresh])
  next
    case (JArr xs)
    with ev have "encode_items h xs = Inr (map (tag_of h) xs)" by (simp add: encodes_def)
    with JArr show ?thesis
      by (simp add: kv typeof_def isArray_def array_items_def assign_fresh [OF fresh])
  next
    case (JObj ps)
    with ev have "objectToFirestoreFields h v = Inr (JObj (map (\<lambda>(k, v). (k, tag_of h v)) ps))"
      by (simp add: encodes_def)
    with JObj show ?thesis by (simp add: kv typeof_def isArray_def assign_fresh [OF fresh])
  qed (use sv in \<open>simp_all add: kv typeof_def isArray_def assign_fresh [OF fresh]\<close>)
  have "encode_loop h kvs (JObj (acc @ [(k, tag_of h v)])) =
      Inr (JObj ((acc @ [(k, tag_of h v)]) @ map (\<lambda>(k, v). (k, tag_of h v)) kvs))"
    using Cons.prems kv by (intro Cons.IH) auto
  with step show ?case by (simp add: kv)
qed

lemma encode_scalar_item:
  assumes "scalar_item x"
  shows "objectToFirestoreFields h (JObj [(''val'', x)]) = Inr (JObj [(''val'', tag_of h x)])"
  using assms
  by (cases x)
    (simp_all add: scalar_item_def objectToFirestoreFields.simps nullish_def entries_def
      typeof_def assign_def define_own_def)

lemma encode_items_supported:
  assumes "\<forall>x \<in> set xs. (scalar_item x \<or> keyed_object x) \<and> encodes h x"
  shows "encode_items h xs = Inr (map (tag_of h) xs)"
  using assms
proof (induction xs)
  case Nil
  show ?case by simp
next
  case (Cons x xs)
  then have rest: "encode_items h xs = Inr (map (tag_of h) xs)" by simp
  show ?case
  proof (cases "keyed_object x")
    case True
    then obtain ps where x: "x = JObj ps" by (cases x) (simp_all add: keyed_object_def)
    with Cons.prems have "objectToFirestoreFields h x = Inr (JObj (map (\<lambda>(k, v). (k, tag_of h v)) ps))"
      by (simp add: encodes_def)
    with x rest show ?thesis by (simp add: typeof_def)
  next
    case False
    with Cons.prems have sc: "scalar_item x" by simp
    then have "typeof x \<noteq> ''object''" "x \<noteq> JHole"
      by (cases x; simp add: scalar_item_def typeof_def)+
    with rest encode_scalar_item [OF sc, of h] show ?thesis
      by (simp add: get_prop_def nullish_def member_JObj)
  qed
qed

lemma parse_entries_tagged:
  assumes "\<forall>(k, v) \<in> set kvs. parseFirestoreValue h (tag_of h v) = Inr v"
    and "distinct (map fst kvs)" and "''__proto__'' \<notin> set (map fst kvs)"
    and "set (map fst kvs) \<inter> fst ` set acc = {}"
  shows "parse_entries h (map (\<lambda>(k, v). (k, tag_of h v)) kvs) (JObj acc) = Inr (JObj (acc @ kvs))"
  using assms
proof (induction kvs arbitrary: acc)
  case Nil
  show ?case by simp
next
  case (Cons kv kvs)
  obtain k v where kv: "kv = (k, v)" by (cases kv)
  from Cons.prems kv have dv: "parseFirestoreValue h (tag_of h v) = Inr v" by auto
  from Cons.prems kv have fresh: "k \<noteq> ''__proto__''" "k \<notin> fst ` set acc" by auto
  have "parse_entries h (map (\<lambda>(k, v). (k, tag_of h v)) kvs) (JObj (acc @ [(k, v)])) =
      Inr (JObj ((acc @ [(k, v)]) @ kvs))"
    using Cons.prems kv by (intro Cons.IH) auto
  with dv show ?case by (simp add: kv assign_fresh [OF fresh])
qed

lemma parse_values_tagged:
  "\<forall>x \<in> set xs. parseFirestoreValue h (tag_of h x) = Inr x \<and> x \<noteq> JHole \<Longrightarrow>
   parse_values h (map (tag_of h) xs) = Inr xs"
proof (induction xs)
  case Nil
  show ?case by simp
next
  case (Cons x xs)
  then have x: "parseFirestoreValue h (tag_of h x) = Inr x" "x \<noteq> JHole"
    and rest: "parse_values h (map (tag_of h) xs) = Inr xs"
    by simp_all
  from x have "tag_of h x \<noteq> JHole" by (cases x) (auto simp: tagged_def split: option.splits)
  with x rest show ?case by simp
qed

lemmas tag_eval =
  parseFirestoreValue.simps tagged_def nullish_def member_JObj
  Object_prototype_keys_def truthy_def js_or_def entries_def

lemma supported_roundtrip: "supported h v \<Longrightarrow> encodes h v \<and> parseFirestoreValue h (tag_of h v) = Inr v"
proof (induction h v rule: supported.induct)
  case (1 h kvs)
  then have parts: "\<forall>(k, v) \<in> set kvs. supported h v \<and> encodes h v"
    and dec: "\<forall>(k, v) \<in> set kvs. parseFirestoreValue h (tag_of h v) = Inr v"
    by auto
  from 1(2) have keys: "distinct (map fst kvs)" "''__proto__'' \<notin> set (map fst kvs)" by auto
  have "encode_loop h kvs (JObj []) = Inr (JObj ([] @ map (\<lambda>(k, v). (k, tag_of h v)) kvs))"
    using parts keys by (intro encode_loop_supported) auto
  then have enc: "encodes h (JObj kvs)"
    by (simp add: encodes_def objectToFirestoreFields.simps nullish_def entries_def)
  have "parse_entries h (map (\<lambda>(k, v). (k, tag_of h v)) kvs) (JObj []) = Inr (JObj ([] @ kvs))"
    using dec keys by (intro parse_entries_tagged) auto
  then have "parseFirestoreValue h (tag_of h (JObj kvs)) = Inr (JObj kvs)"
    by (simp add: tag_eval)
  with enc show ?case by simp
next
  case (2 h xs)
  then have elems: "\<forall>x \<in> set xs. (scalar_item x \<or> keyed_object x) \<and> encodes h x"
    and dec: "\<forall>x \<in> set xs. parseFirestoreValue h (tag_of h x) = Inr x \<and> x \<noteq> JHole"
    by (auto simp: scalar_item_def keyed_object_def)
  have enc: "encodes h (JArr xs)"
    using encode_items_supported [OF elems] by (simp add: encodes_def)
  have "parseFirestoreValue h (tag_of h (JArr xs)) = Inr (JArr xs)"
    using parse_values_tagged [OF dec] by (simp add: tag_eval)
  with enc show ?case by simp
next
  case (3 h t)
  then show ?case by (cases t) (simp_all add: encodes_def tag_eval)
qed (simp_all add: encodes_def tag_eval)

text \<open>
  Where the code follows the round-trip contract: for every supported keyed object \<open>x\<close>
  (its values are numbers, strings, booleans, \<^verbatim>\<open>null\<close>, valid dates, supported keyed
  objects, and arrays whose elements are numbers, strings, booleans or supported keyed
  objects), decoding the encoding of \<open>x\<close> yields \<open>x\<close> itself, through
  \<^verbatim>\<open>parseFirestoreDocument\<close> and through \<^verbatim>\<open>parseFirestoreValue\<close> alike. Integers and
  other numbers are one numeric type in the model, and the key order is kept.
\<close>

lemma roundtrip_supported:
  "supported h (JObj kvs) \<Longrightarrow>
   roundtrip h (JObj kvs) = Inr (JObj kvs) \<and> roundtrip_value h (JObj kvs) = Inr (JObj kvs)"
proof -
  assume sup: "supported h (JObj kvs)"
  then have enc: "encodes h (JObj kvs)"
    and dec: "parseFirestoreValue h (tag_of h (JObj kvs)) = Inr (JObj kvs)"
    using supported_roundtrip [of h "JObj kvs"] by simp_all
  from enc have fs: "objectToFirestoreFields h (JObj kvs) = Inr (JObj (map (\<lambda>(k, v). (k, tag_of h v)) kvs))"
    by (simp add: encodes_def)
  from sup have parts: "\<forall>(k, v) \<in> set kvs. parseFirestoreValue h (tag_of h v) = Inr v"
    using supported_roundtrip by auto
  from sup have keys: "distinct (map fst kvs)" "''__proto__'' \<notin> set (map fst kvs)" by auto
  have "parse_entries h (map (\<lambda>(k, v). (k, tag_of h v)) kvs) (JObj []) = Inr (JObj ([] @ kvs))"
    using parts keys by (intro parse_entries_tagged) auto
  then have "parseFirestoreDocument h (JObj [(''fields'', JObj (map (\<lambda>(k, v). (k, tag_of h v)) kvs))]) =
      Inr (JObj kvs)"
    by (simp add: parseFirestoreDocument_def truthy_def member_JObj entries_def)
  with fs dec show ?thesis by (simp add: roundtrip_def roundtrip_value_def)
qed

lemma roundtrip_supported_example:
  "roundtrip host0
     (JObj [(''score'', JNum (Fin 50)), (''name'', JStr ''ada''), (''done'', JBool True),
            (''note'', JNull), (''at'', JDate (Some 0)),
            (''tags'', JArr [JStr ''x'', JObj [(''n'', JNum (Fin 1))]]),
            (''nested'', JObj [(''k'', JStr ''v'')])]) =
     Inr (JObj [(''score'', JNum (Fin 50)), (''name'', JStr ''ada''), (''done'', JBool True),
            (''note'', JNull), (''at'', JDate (Some 0)),
            (''tags'', JArr [JStr ''x'', JObj [(''n'', JNum (Fin 1))]]),
            (''nested'', JObj [(''k'', JStr ''v'')])])"
proof -
  have s: "supported host0
     (JObj [(''score'', JNum (Fin 50)), (''name'', JStr ''ada''), (''done'', JBool True),
            (''note'', JNull), (''at'', JDate (Some 0)),
            (''tags'', JArr [JStr ''x'', JObj [(''n'', JNum (Fin 1))]]),
            (''nested'', JObj [(''k'', JStr ''v'')])])"
    by (simp add: host0_def scalar_item_def keyed_object_def)
  show ?thesis using roundtrip_supported [OF s] by simp
qed

text \<open>
  C1 fails on the code. The claim covers arrays of supported values, and a property
  holding \<^verbatim>\<open>null\<close>, a date or an array is encoded and decoded back as the claim says.
  But inside \<^verbatim>\<open>value.map(item => ...)\<close> every item with
  \<^verbatim>\<open>typeof item === 'object'\<close> is handed to \<^verbatim>\<open>objectToFirestoreFields(item)\<close> as if it
  were a keyed object: an array holding \<^verbatim>\<open>null\<close> makes the encoder raise a
  \<open>TypeError\<close> (\<^verbatim>\<open>Object.entries(null)\<close>), a date in an array comes back as the empty
  object, and an array in an array comes back as an object keyed by the indices. The
  other branch of the same function, \<^verbatim>\<open>objectToFirestoreFields({ val: item }).val\<close>,
  encodes each of the three as the property path does.
\<close>

theorem array_items_not_round_tripped:
  "roundtrip host0 (JObj [(''scores'', JArr [JNull])]) = Inl TypeError \<and>
   roundtrip host0 (JObj [(''days'', JArr [JDate (Some 0)])]) = Inr (JObj [(''days'', JArr [JObj []])]) \<and>
   roundtrip host0 (JObj [(''grid'', JArr [JArr [JNum (Fin 1)]])]) =
     Inr (JObj [(''grid'', JArr [JObj [(''0'', JNum (Fin 1))]])]) \<and>
   roundtrip host0 (JObj [(''score'', JNull), (''day'', JDate (Some 0)), (''row'', JArr [JNum (Fin 1)])]) =
     Inr (JObj [(''score'', JNull), (''day'', JDate (Some 0)), (''row'', JArr [JNum (Fin 1)])]) \<and>
   objectToFirestoreFields host0 (JObj [(''val'', JNull)]) =
     Inr (JObj [(''val'', tagged ''nullValue'' JNull)]) \<and>
   objectToFirestoreFields host0 (JObj [(''val'', JDate (Some 0))]) =
     Inr (JObj [(''val'', tagged ''timestampValue'' (JStr ''1970-01-01T00:00:00.000Z''))]) \<and>
   objectToFirestoreFields host0 (JObj [(''val'', JArr [JNum (Fin 1)])]) =
     Inr (JObj [(''val'',
       tagged ''arrayValue'' (tagged ''values'' (JArr [tagged ''doubleValue'' (JNum (Fin 1))])))])"
  by (simp add: roundtrip_def objectToFirestoreFields.simps parseFirestoreDocument_def
      typeof_def isArray_def array_items_def assign_def define_own_def get_prop_def
      call_toISOString_def Date_toISOString_def host0_def show_nat.simps tag_eval)

section \<open>Creating the user record\<close>


lemma defaultGames_result:
  "defaultGames h gs w = (games, w') \<Longrightarrow>
   map fst games = gs \<and> (\<forall>g \<in> set gs. \<exists>t. map_of games g = Some (default_sub_record t)) \<and>
   sent w' = sent w \<and> network w' = network w \<and> sessionStorage w' = sessionStorage w \<and>
   localStorage w' = localStorage w \<and> currentUser w' = currentUser w"
proof (induction gs arbitrary: w games w')
  case Nil
  then show ?case by simp
next
  case (Cons a gs)
  obtain flds w1 where g: "getDefaultGameFields h w = (flds, w1)" by (cases "getDefaultGameFields h w")
  obtain rest w2 where r: "defaultGames h gs w1 = (rest, w2)" by (cases "defaultGames h gs w1")
  from g have w1: "sent w1 = sent w" "network w1 = network w" "sessionStorage w1 = sessionStorage w"
    "localStorage w1 = localStorage w" "currentUser w1 = currentUser w"
    and flds: "\<exists>t. tagged ''mapValue'' (tagged ''fields'' flds) = default_sub_record t"
    by (auto simp: getDefaultGameFields_def now_iso_def default_sub_record_def)
  from Cons.prems g r have res: "games = (a, tagged ''mapValue'' (tagged ''fields'' flds)) # rest" "w' = w2"
    by simp_all
  from Cons.IH [OF r] w1 flds show ?case unfolding res by auto
qed

lemma path_simps [simp]: "path v [] = v" "path v (k # ks) = path (member v k) ks"
  by (simp_all add: path_def)

lemma default_sub_record_empty:
  "path (default_sub_record t) [''mapValue'', ''fields'', ''sessions'', ''arrayValue'', ''values''] = JArr [] \<and>
   path (default_sub_record t)
     [''mapValue'', ''fields'', ''personalBests'', ''mapValue'', ''fields'', ''sessionsPlayed'',
      ''doubleValue''] = JNum (Fin 0)"
  by (simp add: default_sub_record_def tagged_def member_JObj)

lemma fetch_cases:
  obtains (failed) w1 where "fetch r w = (Inl TypeError, w1)" "sent w1 = sent w @ [r]"
  | (replied) status js w1 where "fetch r w = (Inr (status, js), w1)" "sent w1 = sent w @ [r]"
  by (cases "network w"; cases "hd (network w)") (auto simp: fetch_def)

text \<open>
  C5. With a user signed in, \<^verbatim>\<open>createUserDocument\<close> sends exactly one request, the write
  of the initial record. Its fields are \<^verbatim>\<open>profile\<close> and the seven games \<^verbatim>\<open>typing\<close>,
  \<^verbatim>\<open>dualNBack\<close>, \<^verbatim>\<open>mathGame\<close>, \<^verbatim>\<open>speedProcessing\<close>, \<^verbatim>\<open>stroop\<close>, \<^verbatim>\<open>cpt\<close>,
  \<^verbatim>\<open>taskSwitching\<close>, in this order and no other; the profile holds the user's email,
  display name and photo URL (the empty string where the user has none) and the creation
  time; and every game has an empty sessions array and \<^verbatim>\<open>sessionsPlayed\<close> equal to 0.
\<close>

theorem createUserDocument_initial_record:
  assumes "\<not> nullish (currentUser w)"
  shows "\<exists>doc created.
     sent (snd (createUserDocument h w)) = sent w @ [create_request h w doc] \<and>
     map fst (entries (member doc ''fields'')) =
       [''profile'', ''typing'', ''dualNBack'', ''mathGame'', ''speedProcessing'', ''stroop'',
        ''cpt'', ''taskSwitching''] \<and>
     path doc [''fields'', ''profile'', ''mapValue'', ''fields''] =
       profile_fields (currentUser w) created \<and>
     (\<forall>g \<in> set gameNames. empty_game doc g)"
proof -
  obtain createdAt w1 where n: "now_iso h w = (createdAt, w1)" by (cases "now_iso h w")
  obtain games w2 where d: "defaultGames h gameNames w1 = (games, w2)"
    by (cases "defaultGames h gameNames w1")
  from n have w1: "sent w1 = sent w" by (auto simp: now_iso_def)
  from defaultGames_result [OF d]
  have keys: "map fst games = gameNames"
    and subs: "\<forall>g \<in> set gameNames. \<exists>t. map_of games g = Some (default_sub_record t)"
    and w2: "sent w2 = sent w1"
    by simp_all
  let ?profile = "tagged ''mapValue'' (tagged ''fields'' (profile_fields (currentUser w) createdAt))"
  let ?doc = "JObj [(''fields'', JObj ((''profile'', ?profile) # games))]"
  let ?r = "create_request h w ?doc"
  have sent: "sent (snd (createUserDocument h w)) = sent w @ [?r]"
  proof (cases rule: fetch_cases [of ?r w2])
    case (failed w3)
    with assms n d w1 w2 show ?thesis
      by (simp add: createUserDocument_def create_request_def getCurrentUser_def
          profile_fields_def)
  next
    case (replied status js w3)
    with assms n d w1 w2 show ?thesis
      by (simp add: createUserDocument_def create_request_def getCurrentUser_def
          profile_fields_def split: sum.splits)
  qed
  have names: "map fst (entries (member ?doc ''fields'')) =
       [''profile'', ''typing'', ''dualNBack'', ''mathGame'', ''speedProcessing'', ''stroop'',
        ''cpt'', ''taskSwitching'']"
    using keys by (simp add: member_JObj entries_def gameNames_def)
  have profile: "path ?doc [''fields'', ''profile'', ''mapValue'', ''fields''] =
       profile_fields (currentUser w) createdAt"
    by (simp add: member_JObj tagged_def)
  have empty: "\<forall>g \<in> set gameNames. empty_game ?doc g"
  proof
    fix g assume g: "g \<in> set gameNames"
    with subs obtain t where t: "map_of games g = Some (default_sub_record t)" by blast
    from g have "g \<noteq> ''profile''" by (auto simp: gameNames_def)
    with t have "path ?doc [''fields'', g] = default_sub_record t" by (simp add: member_JObj)
    with default_sub_record_empty [of t] show "empty_game ?doc g"
      by (simp add: empty_game_def)
  qed
  from sent names profile empty show ?thesis
    by (intro exI [of _ ?doc] exI [of _ createdAt] conjI)
qed

text \<open>Witness for C5: the signed-in example session.\<close>

theorem createUserDocument_initial_record_witness:
  "\<not> nullish (currentUser (session [Reply 200 (Some (JObj []))])) \<and>
   (\<exists>doc created.
     sent (snd (createUserDocument host0 (session [Reply 200 (Some (JObj []))]))) =
       sent (session [Reply 200 (Some (JObj []))]) @
         [create_request host0 (session [Reply 200 (Some (JObj []))]) doc] \<and>
     map fst (entries (member doc ''fields'')) =
       [''profile'', ''typing'', ''dualNBack'', ''mathGame'', ''speedProcessing'', ''stroop'',
        ''cpt'', ''taskSwitching''] \<and>
     path doc [''fields'', ''profile'', ''mapValue'', ''fields''] =
       profile_fields (currentUser (session [Reply 200 (Some (JObj []))])) created \<and>
     (\<forall>g \<in> set gameNames. empty_game doc g))"
proof -
  have s: "\<not> nullish (currentUser (session [Reply 200 (Some (JObj []))]))"
    by (simp add: session_def nullish_def)
  show ?thesis
    using s createUserDocument_initial_record [OF s, of host0] by (intro conjI)
qed

section \<open>Reading with an expired token\<close>









section \<open>Reading arrays\<close>

lemma map_of_indexed_name:
  assumes "\<not> set k \<subseteq> set ''0123456789''"
  shows "map_of (filter P (indexed i xs)) k = None"
proof (cases "map_of (filter P (indexed i xs)) k")
  case (Some x)
  then have "(k, x) \<in> set (indexed i xs)"
    using map_of_SomeD [of "filter P (indexed i xs)" k x] by simp
  then have "set k \<subseteq> set ''0123456789''" by (rule indexed_keys [THEN conjunct1])
  with assms show ?thesis by simp
qed simp

lemma member_JArr_length [simp]: "member (JArr xs) ''length'' = JNum (Fin (real (length xs)))"
proof -
  have "map_of (entries (JArr xs)) ''length'' = None"
    unfolding entries_def by (simp add: map_of_indexed_name)
  then show ?thesis by (simp add: member_def builtin_def)
qed

lemma unshift_JArr [simp]: "unshift h (JArr xs) x = Inr (JArr (x # xs))"
  by (simp add: unshift_def)

lemma keepLast30_JArr [simp]: "keepLast30 h (JArr xs) = Inr (JArr (take 30 xs))"
  by (simp add: keepLast30_def exceeds_def slice_def)

lemma map_items_JArr [simp]: "map_items h (JArr xs) = Inr xs"
  by (simp add: map_items_def)

section \<open>A rejected write\<close>

text \<open>
  C4 fails on the code. On a signed-in page whose read is answered 200 and whose write
  is answered 401, \<^verbatim>\<open>updateGameData\<close> raises \<^verbatim>\<open>Failed to update game data\<close> after
  two requests, the read and the write: no refresh request is sent and the write is
  not repeated. And when the read itself needed a refresh, the write still carries the
  token that was read before the refresh.
\<close>

theorem write_401_not_retried:
  "fst (updateGameData host0 ''typing'' (JObj [(''wpm'', JNum (Fin 60))])
          (JObj [(''bestWpm'', JNum (Fin 60))])
          (session [Reply 200 (Some (JObj [])), Reply 401 None])) =
     Inl (Error ''Failed to update game data'') \<and>
   map meth (sent (snd (updateGameData host0 ''typing'' (JObj [(''wpm'', JNum (Fin 60))])
          (JObj [(''bestWpm'', JNum (Fin 60))])
          (session [Reply 200 (Some (JObj [])), Reply 401 None])))) = [''GET'', ''PATCH''] \<and>
   map (\<lambda>r. (meth r, map_of (headers r) ''Authorization''))
     (sent (snd (updateGameData host0 ''typing'' (JObj [(''wpm'', JNum (Fin 60))])
          (JObj [(''bestWpm'', JNum (Fin 60))])
          (session [Reply 401 None,
                    Reply 200 (Some (JObj [(''id_token'', JStr ''new''),
                                           (''refresh_token'', JStr ''ref2'')])),
                    Reply 200 (Some (JObj [])), Reply 401 None])))) =
     [(''GET'', Some ''Bearer tok''), (''POST'', None), (''GET'', Some ''Bearer new''),
      (''PATCH'', Some ''Bearer tok'')]"
  by (simp add: updateGameData_def readUserData_def readUserDataWithToken_def
      refreshAuthToken_def fetch_def session_def absent_def template_def String_js_def
      json_headers_def
      getAuthToken_def ok_def Let_def response_json_def parseFirestoreDocument_def truthy_def
      member_JObj Object_prototype_keys_def prependSession_def get_prop_def
      nullish_def js_or_def firestoreUpdate_def
      objectToFirestoreFields.simps entries_def typeof_def isArray_def assign_def define_own_def)

section \<open>What the sync functions change\<close>

lemma unchanged_refl [simp]: "unchanged_but_network w w"
  by (simp add: unchanged_but_network_def)

lemma unchanged_trans:
  "unchanged_but_network w w1 \<Longrightarrow> unchanged_but_network w1 w2 \<Longrightarrow> unchanged_but_network w w2"
  by (auto simp: unchanged_but_network_def)

lemma fetch_unchanged: "fetch r w = (res, w') \<Longrightarrow> unchanged_but_network w w'"
  by (auto simp: fetch_def unchanged_but_network_def split: list.splits reply.splits)

lemma fetch_reply:
  "fetch r w = (Inr (status, js), w') \<Longrightarrow>
   network w = Reply status js # network w' \<and> sent w' = sent w @ [r]"
  by (auto simp: fetch_def split: list.splits reply.splits)

lemma now_iso_unchanged: "now_iso h w = (t, w') \<Longrightarrow> unchanged_but_network w w'"
  by (auto simp: now_iso_def unchanged_but_network_def)

lemma defaultGames_unchanged: "defaultGames h gs w = (games, w') \<Longrightarrow> unchanged_but_network w w'"
  using defaultGames_result [of h gs w games w'] by (simp add: unchanged_but_network_def)

lemma refreshAuthToken_unchanged:
  "refreshAuthToken h w = (res, w') \<Longrightarrow> unchanged_but_network w w'"
  by (auto simp: refreshAuthToken_def Let_def fetch_def unchanged_but_network_def
      split: if_splits list.splits reply.splits sum.splits option.splits)

lemma createUserDocument_unchanged:
  assumes "createUserDocument h w = (res, w')"
  shows "unchanged_but_network w w'"
proof (cases "nullish (currentUser w)")
  case True
  with assms show ?thesis by (simp add: createUserDocument_def getCurrentUser_def)
next
  case False
  obtain createdAt w1 where n: "now_iso h w = (createdAt, w1)" by (cases "now_iso h w")
  obtain games w2 where d: "defaultGames h gameNames w1 = (games, w2)"
    by (cases "defaultGames h gameNames w1")
  have u2: "unchanged_but_network w w2"
    using now_iso_unchanged [OF n] defaultGames_unchanged [OF d] by (rule unchanged_trans)
  from assms False n d obtain r fres where f: "fetch r w2 = (fres, w')"
    by (auto simp: createUserDocument_def getCurrentUser_def Let_def
        split: prod.splits sum.splits if_splits)
  from u2 fetch_unchanged [OF f] show ?thesis by (rule unchanged_trans)
qed

lemma readUserDataWithToken_unchanged:
  assumes "readUserDataWithToken h token w = (res, w')"
  shows "unchanged_but_network w w'"
proof -
  from assms obtain r fres where "fetch r w = (fres, w')"
    by (auto simp: readUserDataWithToken_def Let_def split: prod.splits sum.splits if_splits)
  then show ?thesis by (rule fetch_unchanged)
qed

lemma readUserData_unchanged:
  assumes "readUserData h w = (res, w')"
  shows "unchanged_but_network w w'"
proof (cases "absent (sessionStorage w ''userId'') \<or> absent (getAuthToken w)")
  case True
  with assms show ?thesis by (simp add: readUserData_def Let_def)
next
  case False
  let ?r = "\<lparr>meth = ''GET'',
      url = firestoreUrl h @ ''/'' @ getUserDocPath h (sessionStorage w ''userId''),
      headers = json_headers (template (getAuthToken w)), body = None\<rparr>"
  obtain fres w1 where f: "fetch ?r w = (fres, w1)" by (cases "fetch ?r w")
  note u1 = fetch_unchanged [OF f]
  show ?thesis
  proof (cases fres)
    case (Inl e)
    with assms False f u1 show ?thesis by (simp add: readUserData_def Let_def)
  next
    case (Inr sj)
    obtain status js where sj: "sj = (status, js)" by (cases sj)
    show ?thesis
    proof (cases "status = 404")
      case True
      with assms False f Inr sj have "createUserDocument h w1 = (res, w')"
        by (simp add: readUserData_def Let_def)
      from u1 createUserDocument_unchanged [OF this] show ?thesis by (rule unchanged_trans)
    next
      case not404: False
      show ?thesis
      proof (cases "ok status")
        case True
        with assms False f Inr sj not404 have "w' = w1"
          by (auto simp: readUserData_def Let_def split: sum.splits)
        with u1 show ?thesis by simp
      next
        case notok: False
        show ?thesis
        proof (cases "status = 401")
          case False
          with assms \<open>\<not> (absent (sessionStorage w ''userId'') \<or> absent (getAuthToken w))\<close>
            f Inr sj not404 notok have "w' = w1"
            by (simp add: readUserData_def Let_def)
          with u1 show ?thesis by simp
        next
          case True
          obtain rres w2 where r: "refreshAuthToken h w1 = (rres, w2)"
            by (cases "refreshAuthToken h w1")
          note u2 = unchanged_trans [OF u1 refreshAuthToken_unchanged [OF r]]
          show ?thesis
          proof (cases rres)
            case (Inl e)
            with assms \<open>\<not> (absent (sessionStorage w ''userId'') \<or> absent (getAuthToken w))\<close>
              f Inr sj not404 notok True r have "w' = w2"
              by (simp add: readUserData_def Let_def)
            with u2 show ?thesis by simp
          next
            case (Inr newToken)
            with assms \<open>\<not> (absent (sessionStorage w ''userId'') \<or> absent (getAuthToken w))\<close>
              f \<open>fres = Inr sj\<close> sj not404 notok True r
            have "readUserDataWithToken h newToken w2 = (res, w')"
              by (simp add: readUserData_def Let_def)
            from u2 readUserDataWithToken_unchanged [OF this] show ?thesis
              by (rule unchanged_trans)
          qed
        qed
      qed
    qed
  qed
qed

lemma updateGameData_run:
  assumes "updateGameData h g s pb w = (res, w')"
  shows "(isl res \<and> (\<exists>rres. readUserData h w = (rres, w'))) \<or>
     (\<exists>userData w1 sessions update fetched.
        readUserData h w = (Inr userData, w1) \<and>
        prependSession h userData g s = Inr sessions \<and>
        firestoreUpdate h g pb sessions = Inr update \<and>
        fetch (update_request h w g update) w1 = (fetched, w') \<and>
        res = write_outcome fetched)"
proof (cases "absent (sessionStorage w ''userId'') \<or> absent (getAuthToken w)")
  case True
  with assms show ?thesis by (auto simp: updateGameData_def readUserData_def Let_def)
next
  case auth: False
  obtain rres w1 where r: "readUserData h w = (rres, w1)" by (cases "readUserData h w")
  show ?thesis
  proof (cases rres)
    case (Inl e)
    with assms auth r have "res = Inl e" "w' = w1"
      by (simp_all add: updateGameData_def Let_def)
    with r Inl show ?thesis by simp
  next
    case (Inr userData)
    show ?thesis
    proof (cases "prependSession h userData g s")
      case (Inl e)
      with assms auth r Inr have "res = Inl e" "w' = w1"
        by (simp_all add: updateGameData_def Let_def)
      with r show ?thesis by simp
    next
      case sess: (Inr sessions)
      show ?thesis
      proof (cases "firestoreUpdate h g pb sessions")
        case (Inl e)
        with assms auth r Inr sess have "res = Inl e" "w' = w1"
          by (simp_all add: updateGameData_def Let_def)
        with r show ?thesis by simp
      next
        case upd: (Inr update)
        obtain fetched w2 where f: "fetch (update_request h w g update) w1 = (fetched, w2)"
          by (cases "fetch (update_request h w g update) w1")
        with assms auth r Inr sess upd have "w' = w2" "res = write_outcome fetched"
          by (auto simp: updateGameData_def Let_def update_request_def write_outcome_def
              split: sum.splits prod.splits if_splits)
        with r Inr sess upd f show ?thesis by blast
      qed
    qed
  qed
qed

lemma updateGameData_unchanged:
  assumes "updateGameData h g s pb w = (res, w')"
  shows "unchanged_but_network w w'"
  using updateGameData_run [OF assms]
proof (elim disjE conjE exE)
  fix rres assume "readUserData h w = (rres, w')"
  then show ?thesis by (rule readUserData_unchanged)
next
  fix userData w1 sessions update fetched
  assume "readUserData h w = (Inr userData, w1)"
    and "fetch (update_request h w g update) w1 = (fetched, w')"
  then show ?thesis
    using readUserData_unchanged fetch_unchanged unchanged_trans by blast
qed

lemma updateGameData_success:
  assumes "updateGameData h g s pb w = (Inr result, w')"
  shows "\<exists>(w1 :: world) update status pre.
     sent w' = sent w1 @ [update_request h w g update] \<and>
     network w1 = Reply status (Some result) # network w' \<and> ok status \<and>
     network w = pre @ network w1"
  using updateGameData_run [OF assms]
proof (elim disjE conjE exE)
  fix rres assume "isl (Inr result :: error + jsval)"
  then show ?thesis by simp
next
  fix userData w1 sessions update fetched
  assume r: "readUserData h w = (Inr userData, w1)"
    and f: "fetch (update_request h w g update) w1 = (fetched, w')"
    and res: "Inr result = write_outcome fetched"
  from res obtain status where fetched: "fetched = Inr (status, Some result)" and ok: "ok status"
    by (auto simp: write_outcome_def response_json_def split: sum.splits if_splits option.splits)
  from readUserData_unchanged [OF r] obtain pre where pre: "network w = pre @ network w1"
    by (auto simp: unchanged_but_network_def)
  from fetch_reply [OF f [unfolded fetched]] ok pre
  have "sent w' = sent w1 @ [update_request h w g update] \<and>
     network w1 = Reply status (Some result) # network w' \<and> ok status \<and>
     network w = pre @ network w1"
    by simp
  then show ?thesis by blast
qed

section \<open>Migration\<close>

lemma migrateLocalStorage_run:
  assumes "migrateLocalStorage h g key w = (migrated, w')"
  shows "(\<not> migrated \<and> w' = w) \<or>
     (\<exists>session parsed w1 res w2.
        (w1 = w \<or> w1 = w\<lparr>ticks := Suc (ticks w)\<rparr>) \<and>
        \<not> absent (localStorage w key) \<and>
        updateGameData h g session parsed w1 = (res, w2) \<and>
        (case res of
           Inl e \<Rightarrow> \<not> migrated \<and> w' = w2
         | Inr result \<Rightarrow>
             migrated \<and> w' = w2\<lparr>localStorage := (localStorage w2)(key := None)\<rparr>))"
proof (cases "absent (localStorage w key)")
  case True
  with assms show ?thesis by (simp add: migrateLocalStorage_def)
next
  case present: False
  show ?thesis
  proof (cases "JSON_parse h (template (localStorage w key))")
    case (Inl e)
    with assms present show ?thesis by (simp add: migrateLocalStorage_def)
  next
    case (Inr parsedData)
    show ?thesis
    proof (cases "get_prop parsedData ''lastPlayed''")
      case (Inl e)
      with assms present Inr show ?thesis by (simp add: migrateLocalStorage_def)
    next
      case lp: (Inr lastPlayed)
      define tw where "tw = (if truthy lastPlayed then (lastPlayed, w)
          else (case now_iso h w of (isoStr, w1) \<Rightarrow> (JStr isoStr, w1)))"
      obtain timestamp w1 where tw1: "tw = (timestamp, w1)" by (cases tw)
      then have w1: "w1 = w \<or> w1 = w\<lparr>ticks := Suc (ticks w)\<rparr>"
        by (auto simp: tw_def now_iso_def split: if_splits)
      let ?session = "JObj (AList.delete ''lastPlayed''
          (spread parsedData [(''timestamp'', timestamp)]))"
      obtain res w2 where u: "updateGameData h g ?session parsedData w1 = (res, w2)"
        by (cases "updateGameData h g ?session parsedData w1")
      have "(case res of
           Inl e \<Rightarrow> \<not> migrated \<and> w' = w2
         | Inr result \<Rightarrow>
             migrated \<and> w' = w2\<lparr>localStorage := (localStorage w2)(key := None)\<rparr>)"
        using assms present Inr lp tw1 u
        by (auto simp: migrateLocalStorage_def Let_def tw_def split: sum.splits)
      with w1 present u show ?thesis by blast
    qed
  qed
qed

lemmas run_defs =
  migrateLocalStorage_def updateGameData_def readUserData_def readUserDataWithToken_def
  refreshAuthToken_def fetch_def session_def legacy_session_def absent_def template_def
  String_js_def json_headers_def getAuthToken_def ok_def Let_def response_json_def
  parseFirestoreDocument_def truthy_def member_JObj Object_prototype_keys_def
  prependSession_def get_prop_def nullish_def js_or_def
  firestoreUpdate_def objectToFirestoreFields.simps entries_def typeof_def isArray_def
  assign_def define_own_def spread_def host0_def legacy_stroop_def tagged_def

lemma legacy_run:
  "fst (migrateLocalStorage host0 ''stroop'' ''focus-games-stroop''
     (legacy_session [Reply 200 (Some (JObj [])), Reply 200 (Some (JObj []))]))"
  by (simp add: run_defs)

text \<open>
  C8. \<^verbatim>\<open>migrateLocalStorage\<close> always returns a boolean (its whole body is inside
  \<^verbatim>\<open>try\<close>). With no legacy record under the key (absent or empty) it returns
  \<^verbatim>\<open>false\<close> and nothing changes: no request is sent. When the record does not parse
  it returns \<^verbatim>\<open>false\<close> and nothing changes. Whenever it returns \<^verbatim>\<open>false\<close>, local
  storage is as before. When it returns \<^verbatim>\<open>true\<close>, local storage differs only by the
  removal of the key, the last request sent is the write of \<^verbatim>\<open>updateGameData\<close>, and
  the last reply consumed answered it with a success status and a JSON body.
\<close>

theorem migrateLocalStorage_safe:
  "(absent (localStorage w key) \<longrightarrow> migrateLocalStorage h g key w = (False, w)) \<and>
   (isl (JSON_parse h (template (localStorage w key))) \<longrightarrow>
      migrateLocalStorage h g key w = (False, w)) \<and>
   (\<not> fst (migrateLocalStorage h g key w) \<longrightarrow>
      localStorage (snd (migrateLocalStorage h g key w)) = localStorage w) \<and>
   (fst (migrateLocalStorage h g key w) \<longrightarrow>
      localStorage (snd (migrateLocalStorage h g key w)) = (localStorage w)(key := None) \<and>
      (\<exists>update. last (sent (snd (migrateLocalStorage h g key w))) = update_request h w g update) \<and>
      (\<exists>pre status result.
         network w = pre @ Reply status (Some result) # network (snd (migrateLocalStorage h g key w)) \<and>
         ok status))"
proof -
  obtain migrated w' where m: "migrateLocalStorage h g key w = (migrated, w')"
    by (cases "migrateLocalStorage h g key w")
  have none: "absent (localStorage w key) \<longrightarrow> migrateLocalStorage h g key w = (False, w)"
    by (simp add: migrateLocalStorage_def)
  have unparsed: "isl (JSON_parse h (template (localStorage w key))) \<longrightarrow>
      migrateLocalStorage h g key w = (False, w)"
    by (cases "JSON_parse h (template (localStorage w key))")
      (simp_all add: migrateLocalStorage_def Let_def)
  have kept: "\<not> migrated \<longrightarrow> localStorage w' = localStorage w"
  proof
    assume nm: "\<not> migrated"
    from migrateLocalStorage_run [OF m]
    consider (same) "w' = w"
      | (ran) session parsed and w1 :: world and res w2
        where "w1 = w \<or> w1 = w\<lparr>ticks := Suc (ticks w)\<rparr>"
          and "updateGameData h g session parsed w1 = (res, w2)"
          and "case res of Inl e \<Rightarrow> \<not> migrated \<and> w' = w2
            | Inr result \<Rightarrow> migrated \<and> w' = w2\<lparr>localStorage := (localStorage w2)(key := None)\<rparr>"
      by blast
    then show "localStorage w' = localStorage w"
    proof cases
      case same
      then show ?thesis by simp
    next
      case ran
      from ran(3) nm have "w' = w2" by (cases res) simp_all
      moreover from updateGameData_unchanged [OF ran(2)] have "localStorage w2 = localStorage w1"
        by (simp add: unchanged_but_network_def)
      moreover from ran(1) have "localStorage w1 = localStorage w" by auto
      ultimately show ?thesis by simp
    qed
  qed
  have removed: "migrated \<longrightarrow>
      localStorage w' = (localStorage w)(key := None) \<and>
      (\<exists>update. last (sent w') = update_request h w g update) \<and>
      (\<exists>pre status result. network w = pre @ Reply status (Some result) # network w' \<and> ok status)"
  proof
    assume "migrated"
    with migrateLocalStorage_run [OF m] obtain session parsed and w1 :: world and res w2
      where w1: "w1 = w \<or> w1 = w\<lparr>ticks := Suc (ticks w)\<rparr>"
        and u: "updateGameData h g session parsed w1 = (res, w2)"
        and c: "case res of Inl e \<Rightarrow> \<not> migrated \<and> w' = w2
          | Inr result \<Rightarrow> migrated \<and> w' = w2\<lparr>localStorage := (localStorage w2)(key := None)\<rparr>"
      by blast
    from c \<open>migrated\<close> obtain result where res: "res = Inr result"
      and w': "w' = w2\<lparr>localStorage := (localStorage w2)(key := None)\<rparr>"
      by (cases res) simp_all
    from updateGameData_unchanged [OF u] have "localStorage w2 = localStorage w1"
      by (simp add: unchanged_but_network_def)
    moreover from w1 have same: "localStorage w1 = localStorage w" "network w1 = network w"
      "update_request h w1 g = update_request h w g"
      by (auto simp: update_request_def getAuthToken_def)
    ultimately have ls: "localStorage w' = (localStorage w)(key := None)" using w' by simp
    from updateGameData_success [OF u [unfolded res]] obtain w3 :: world and update status pre
      where "sent w2 = sent w3 @ [update_request h w1 g update]"
        and "network w3 = Reply status (Some result) # network w2" and "ok status"
        and "network w1 = pre @ network w3"
      by blast
    with same w' have "last (sent w') = update_request h w g update"
      and "network w = pre @ Reply status (Some result) # network w' \<and> ok status"
      by simp_all
    with ls show "localStorage w' = (localStorage w)(key := None) \<and>
      (\<exists>update. last (sent w') = update_request h w g update) \<and>
      (\<exists>pre status result. network w = pre @ Reply status (Some result) # network w' \<and> ok status)"
      by blast
  qed
  from none unparsed kept removed show ?thesis unfolding m by simp
qed

text \<open>
  Witness for C8: a page without the legacy key, a page whose legacy record is not JSON,
  and the page with the legacy stroop record, whose read and write are both answered 200.
\<close>

theorem migrateLocalStorage_witness:
  "absent (localStorage (session []) ''focus-games-stroop'') \<and>
   migrateLocalStorage host0 ''stroop'' ''focus-games-stroop'' (session []) = (False, session []) \<and>
   isl (JSON_parse host0
     (template (localStorage ((session [])\<lparr>localStorage := [''focus-games-stroop'' \<mapsto> ''{'']\<rparr>)
        ''focus-games-stroop''))) \<and>
   \<not> fst (migrateLocalStorage host0 ''stroop'' ''focus-games-stroop''
     ((session [])\<lparr>localStorage := [''focus-games-stroop'' \<mapsto> ''{'']\<rparr>)) \<and>
   localStorage (snd (migrateLocalStorage host0 ''stroop'' ''focus-games-stroop''
     ((session [])\<lparr>localStorage := [''focus-games-stroop'' \<mapsto> ''{'']\<rparr>)))
     ''focus-games-stroop'' = Some ''{'' \<and>
   fst (migrateLocalStorage host0 ''stroop'' ''focus-games-stroop''
     (legacy_session [Reply 200 (Some (JObj [])), Reply 200 (Some (JObj []))])) \<and>
   localStorage (snd (migrateLocalStorage host0 ''stroop'' ''focus-games-stroop''
     (legacy_session [Reply 200 (Some (JObj [])), Reply 200 (Some (JObj []))])))
     ''focus-games-stroop'' = None \<and>
   map meth (sent (snd (migrateLocalStorage host0 ''stroop'' ''focus-games-stroop''
     (legacy_session [Reply 200 (Some (JObj [])), Reply 200 (Some (JObj []))])))) =
     [''GET'', ''PATCH'']"
proof -
  have a: "absent (localStorage (session []) ''focus-games-stroop'')"
    by (simp add: session_def absent_def)
  have b: "isl (JSON_parse host0
     (template (localStorage ((session [])\<lparr>localStorage := [''focus-games-stroop'' \<mapsto> ''{'']\<rparr>)
        ''focus-games-stroop'')))"
    by (simp add: host0_def template_def legacy_stroop_def)
  have c: "fst (migrateLocalStorage host0 ''stroop'' ''focus-games-stroop''
     (legacy_session [Reply 200 (Some (JObj [])), Reply 200 (Some (JObj []))]))"
    by (rule legacy_run)
  have d: "map meth (sent (snd (migrateLocalStorage host0 ''stroop'' ''focus-games-stroop''
     (legacy_session [Reply 200 (Some (JObj [])), Reply 200 (Some (JObj []))])))) =
     [''GET'', ''PATCH'']"
    by (simp add: run_defs)
  from a b c d
    migrateLocalStorage_safe [of "session []" "''focus-games-stroop''" host0 "''stroop''"]
    migrateLocalStorage_safe [of "(session [])\<lparr>localStorage := [''focus-games-stroop'' \<mapsto> ''{'']\<rparr>"
      "''focus-games-stroop''" host0 "''stroop''"]
    migrateLocalStorage_safe [of "legacy_session [Reply 200 (Some (JObj [])), Reply 200 (Some (JObj []))]"
      "''focus-games-stroop''" host0 "''stroop''"]
  show ?thesis by (simp add: legacy_session_def)
qed

section \<open>The scope of a write\<close>








section \<open>A category missing from the record\<close>

lemma record_object_assign: "record_object obj \<Longrightarrow> record_object (assign k v obj)"
  by (cases obj) (simp_all add: record_object_def assign_def define_own_def set_prototype_def)

lemma parse_entries_record:
  "record_object acc \<Longrightarrow> parse_entries h ents acc = Inr obj \<Longrightarrow> record_object obj"
proof (induction ents arbitrary: acc)
  case Nil
  then show ?case by simp
next
  case (Cons kv ents)
  obtain k x where kv: "kv = (k, x)" by (cases kv)
  from Cons.prems(2) kv obtain v where "parseFirestoreValue h x = Inr v"
    and "parse_entries h ents (assign k v acc) = Inr obj"
    by (auto split: sum.splits)
  with Cons.prems(1) show ?case using Cons.IH [of "assign k v acc"] record_object_assign by blast
qed

lemma parseFirestoreDocument_record:
  "parseFirestoreDocument h d = Inr u \<Longrightarrow> record_object u"
proof (cases "\<not> truthy d \<or> \<not> truthy (member d ''fields'')")
  case True
  then show "parseFirestoreDocument h d = Inr u \<Longrightarrow> ?thesis"
    by (auto simp: parseFirestoreDocument_def record_object_def)
next
  case False
  assume "parseFirestoreDocument h d = Inr u"
  with False have "parse_entries h (entries (member d ''fields'')) (JObj []) = Inr u"
    by (simp add: parseFirestoreDocument_def)
  moreover have "record_object (JObj [])" by (simp add: record_object_def)
  ultimately show ?thesis using parse_entries_record by blast
qed

lemma createUserDocument_record:
  "createUserDocument h w = (Inr u, w') \<Longrightarrow> record_object u"
  by (auto simp: createUserDocument_def Let_def response_json_def
      dest: parseFirestoreDocument_record
      split: if_splits sum.splits prod.splits option.splits)

lemma readUserDataWithToken_record:
  "readUserDataWithToken h t w = (Inr u, w') \<Longrightarrow> record_object u"
  by (auto simp: readUserDataWithToken_def Let_def response_json_def
      dest: parseFirestoreDocument_record
      split: if_splits sum.splits prod.splits option.splits)

lemma readUserData_record:
  "readUserData h w = (Inr u, w') \<Longrightarrow> record_object u"
  by (auto simp: readUserData_def Let_def response_json_def
      dest: parseFirestoreDocument_record createUserDocument_record readUserDataWithToken_record
      split: if_splits sum.splits prod.splits option.splits)

lemma record_object_not_nullish: "record_object u \<Longrightarrow> \<not> nullish u"
  by (cases u) (simp_all add: record_object_def nullish_def)

text \<open>
  C10 (as amended). Let the read of a signed-in page return a record in which the
  category is no property, own or inherited: \<^verbatim>\<open>gameName in userData\<close> is false, which
  excludes the names that every object inherits (\<^verbatim>\<open>toString\<close>, \<^verbatim>\<open>constructor\<close>,
  \<^verbatim>\<open>__proto__\<close>, ...) and what a replaced prototype provides. Then the missing
  sub-record counts as empty: the new sessions list is exactly the one new entry. If the
  bests and the entry can be encoded and the write is answered with a success status and
  a JSON body, \<^verbatim>\<open>updateGameData\<close> returns that body, and the one request it sent after
  the read is the write whose sessions array holds exactly the encoded entry and whose
  bests are the encoded bests.
\<close>

theorem updateGameData_missing_category:
  assumes "\<not> absent (sessionStorage w ''userId'')" and "\<not> absent (getAuthToken w)"
    and "fst (readUserData h w) = Inr userData"
    and "\<not> has_property userData g"
    and "objectToFirestoreFields h pb = Inr bests"
    and "objectToFirestoreFields h s = Inr fs"
    and "network (snd (readUserData h w)) = Reply status (Some result) # rest"
    and "ok status"
  shows "prependSession h userData g s = Inr (JArr [s]) \<and>
     fst (updateGameData h g s pb w) = Inr result \<and>
     (\<exists>update.
        sent (snd (updateGameData h g s pb w)) =
          sent (snd (readUserData h w)) @ [update_request h w g update] \<and>
        written_sessions g update = JArr [tagged ''mapValue'' (tagged ''fields'' fs)] \<and>
        path update [''fields'', g, ''mapValue'', ''fields'', ''personalBests'', ''mapValue'',
                     ''fields''] = bests)"
proof -
  obtain w1 where r: "readUserData h w = (Inr userData, w1)"
    using assms(3) by (cases "readUserData h w") simp
  from readUserData_record [OF r] have obj: "\<not> nullish userData"
    by (rule record_object_not_nullish)
  from assms(4) have "member userData g = JUndefined"
    by (auto simp: has_property_def member_def)
  with obj have p: "prependSession h userData g s = Inr (JArr [s])"
    by (simp add: prependSession_def get_prop_def js_or_def truthy_def member_JObj)
  let ?update = "JObj [(''fields'',
      JObj [(g, tagged ''mapValue'' (tagged ''fields''
        (JObj [(''personalBests'', tagged ''mapValue'' (tagged ''fields'' bests)),
               (''sessions'', tagged ''arrayValue'' (tagged ''values''
                  (JArr [tagged ''mapValue'' (tagged ''fields'' fs)])))])))])]"
  from assms(6) have hole: "s \<noteq> JHole"
    by (auto simp: objectToFirestoreFields.simps nullish_def)
  have fu: "firestoreUpdate h g pb (JArr [s]) = Inr ?update"
    using hole assms(5,6) by (simp add: firestoreUpdate_def)
  from assms(7) r have n: "network w1 = Reply status (Some result) # rest" by simp
  have f: "fetch (update_request h w g ?update) w1 =
      (Inr (status, Some result), w1\<lparr>network := rest,
         sent := sent w1 @ [update_request h w g ?update]\<rparr>)"
    using n by (simp add: fetch_def)
  have run: "updateGameData h g s pb w =
      (Inr result, w1\<lparr>network := rest, sent := sent w1 @ [update_request h w g ?update]\<rparr>)"
    using assms(1,2,8) r p fu f
    by (simp add: updateGameData_def Let_def update_request_def response_json_def)
  have ws: "written_sessions g ?update = JArr [tagged ''mapValue'' (tagged ''fields'' fs)]"
    by (simp add: written_sessions_def member_JObj tagged_def)
  have pbs: "path ?update [''fields'', g, ''mapValue'', ''fields'', ''personalBests'', ''mapValue'',
                     ''fields''] = bests"
    by (simp add: member_JObj tagged_def)
  from run r ws pbs have "\<exists>update.
        sent (snd (updateGameData h g s pb w)) =
          sent (snd (readUserData h w)) @ [update_request h w g update] \<and>
        written_sessions g update = JArr [tagged ''mapValue'' (tagged ''fields'' fs)] \<and>
        path update [''fields'', g, ''mapValue'', ''fields'', ''personalBests'', ''mapValue'',
                     ''fields''] = bests"
    by (intro exI [of _ ?update]) simp
  with p run show ?thesis by simp
qed

text \<open>
  Witness for C10: the document exists with no fields, and the category is
  \<^verbatim>\<open>typing\<close>.
\<close>

theorem updateGameData_missing_category_witness:
  "\<not> absent (sessionStorage (session [Reply 200 (Some (JObj [(''fields'', JObj [])])), Reply 200 (Some (JObj []))]) ''userId'') \<and>
   \<not> absent (getAuthToken (session [Reply 200 (Some (JObj [(''fields'', JObj [])])), Reply 200 (Some (JObj []))])) \<and>
   fst (readUserData host0 (session [Reply 200 (Some (JObj [(''fields'', JObj [])])), Reply 200 (Some (JObj []))])) = Inr (JObj []) \<and>
   \<not> has_property (JObj []) ''typing'' \<and>
   objectToFirestoreFields host0 (JObj [(''bestWpm'', JNum (Fin 60))]) =
     Inr (JObj [(''bestWpm'', tagged ''doubleValue'' (JNum (Fin 60)))]) \<and>
   objectToFirestoreFields host0 (JObj [(''wpm'', JNum (Fin 60))]) =
     Inr (JObj [(''wpm'', tagged ''doubleValue'' (JNum (Fin 60)))]) \<and>
   network (snd (readUserData host0 (session [Reply 200 (Some (JObj [(''fields'', JObj [])])), Reply 200 (Some (JObj []))]))) =
     [Reply 200 (Some (JObj []))] \<and>
   ok 200 \<and>
   prependSession host0 (JObj []) ''typing'' (JObj [(''wpm'', JNum (Fin 60))]) =
     Inr (JArr [JObj [(''wpm'', JNum (Fin 60))]]) \<and>
   fst (updateGameData host0 ''typing'' (JObj [(''wpm'', JNum (Fin 60))])
     (JObj [(''bestWpm'', JNum (Fin 60))])
     (session [Reply 200 (Some (JObj [(''fields'', JObj [])])), Reply 200 (Some (JObj []))])) =
     Inr (JObj [])"
proof -
  let ?w = "session [Reply 200 (Some (JObj [(''fields'', JObj [])])), Reply 200 (Some (JObj []))]"
  have a: "\<not> absent (sessionStorage ?w ''userId'')" "\<not> absent (getAuthToken ?w)"
    by (simp_all add: session_def absent_def getAuthToken_def)
  have r: "fst (readUserData host0 ?w) = Inr (JObj [])"
    "network (snd (readUserData host0 ?w)) = [Reply 200 (Some (JObj []))]"
    by (simp_all add: run_defs)
  have m: "\<not> has_property (JObj []) ''typing''"
    by (simp add: has_property_def entries_def builtin_def Object_prototype_keys_def)
  have e: "objectToFirestoreFields host0 (JObj [(''bestWpm'', JNum (Fin 60))]) =
      Inr (JObj [(''bestWpm'', tagged ''doubleValue'' (JNum (Fin 60)))])"
    "objectToFirestoreFields host0 (JObj [(''wpm'', JNum (Fin 60))]) =
      Inr (JObj [(''wpm'', tagged ''doubleValue'' (JNum (Fin 60)))])"
    by (simp_all add: objectToFirestoreFields.simps nullish_def entries_def typeof_def assign_def
        define_own_def)
  have k: "ok 200" by (simp add: ok_def)
  from updateGameData_missing_category [OF a r(1) m e r(2) k] a r m e k
  show ?thesis by simp
qed

text \<open>
  C10 as stated fails for a category name that the fetched record does not hold but
  inherits. With the name \<^verbatim>\<open>toString\<close> and a record without fields,
  \<^verbatim>\<open>userData[gameName]\<close> is the inherited function, which has no sessions, and the call
  raises a \<open>TypeError\<close> before anything is written. And when the document has a field
  \<^verbatim>\<open>__proto__\<close> holding a map with a \<^verbatim>\<open>typing\<close> sub-record, the decoded record has
  no field at all, yet \<^verbatim>\<open>userData.typing\<close> is the inherited sub-record, and the
  sessions array written holds two entries, the new one and the inherited one.
\<close>

theorem inherited_category_counterexample:
  "fst (readUserData host0
     (session [Reply 200 (Some (JObj [(''fields'', JObj [])])), Reply 200 (Some (JObj []))])) =
     Inr (JObj []) \<and>
   ''toString'' \<notin> fst ` set (entries (JObj [])) \<and>
   updateGameData host0 ''toString'' (JObj [(''wpm'', JNum (Fin 60))])
     (JObj [(''bestWpm'', JNum (Fin 60))])
     (session [Reply 200 (Some (JObj [(''fields'', JObj [])])), Reply 200 (Some (JObj []))]) =
     (Inl TypeError,
      snd (readUserData host0
        (session [Reply 200 (Some (JObj [(''fields'', JObj [])])), Reply 200 (Some (JObj []))]))) \<and>
   fst (readUserData host0 (session [Reply 200 (Some (JObj [(''fields'', JObj [(''__proto__'',
       tagged ''mapValue'' (tagged ''fields'' (JObj [(''typing'',
         tagged ''mapValue'' (tagged ''fields'' (JObj [(''sessions'',
           tagged ''arrayValue'' (tagged ''values''
             (JArr [tagged ''mapValue'' (tagged ''fields''
               (JObj [(''wpm'', tagged ''doubleValue'' (JNum (Fin 1)))]))])))])))])))])])),
     Reply 200 (Some (JObj []))])) =
     Inr (JProto (JObj [(''typing'', JObj [(''sessions'', JArr [JObj [(''wpm'', JNum (Fin 1))]])])]) []) \<and>
   entries (JProto (JObj [(''typing'', JObj [(''sessions'', JArr [JObj [(''wpm'', JNum (Fin 1))]])])]) []) = [] \<and>
   map (\<lambda>r. case body r of None \<Rightarrow> JUndefined | Some b \<Rightarrow> written_sessions ''typing'' b)
     (sent (snd (updateGameData host0 ''typing'' (JObj [(''wpm'', JNum (Fin 60))])
       (JObj [(''bestWpm'', JNum (Fin 60))])
       (session [Reply 200 (Some (JObj [(''fields'', JObj [(''__proto__'',
       tagged ''mapValue'' (tagged ''fields'' (JObj [(''typing'',
         tagged ''mapValue'' (tagged ''fields'' (JObj [(''sessions'',
           tagged ''arrayValue'' (tagged ''values''
             (JArr [tagged ''mapValue'' (tagged ''fields''
               (JObj [(''wpm'', tagged ''doubleValue'' (JNum (Fin 1)))]))])))])))])))])])),
     Reply 200 (Some (JObj []))])))) =
     [JUndefined,
      JArr [tagged ''mapValue'' (tagged ''fields'' (JObj [(''wpm'', tagged ''doubleValue'' (JNum (Fin 60)))])),
            tagged ''mapValue'' (tagged ''fields'' (JObj [(''wpm'', tagged ''doubleValue'' (JNum (Fin 1)))]))]]"
  by (simp add: run_defs member_def builtin_def parseFirestoreValue.simps is_object_def
      set_prototype_def callable_def unshift_def written_sessions_def)

section \<open>The bounded session history\<close>




























end
